theory Spec2Isabelle
  imports Main "HOL-Library.Word"
begin

section \<open>Go values as the validation package sees them\<close>

text \<open>
  The request data is a \<^verbatim>\<open>map[string]interface{}\<close>. A value stored in it carries its
  dynamic type; the package inspects it only through \<^verbatim>\<open>reflect\<close> (kind, type name,
  slice elements). \<open>gotype\<close> lists the dynamic types that occur in the package and in
  its tests; \<open>val\<close> is an interface value, \<open>VNil\<close> the nil interface.
\<close>

datatype gotype =
    TBool | TInt | TInt32 | TUint | TFloat64 | TString
  | TInterface | TTime | TFile | TMap | TSlice gotype

datatype val =
    VNil
  | VBool bool
  | VInt int
  | VInt32 int
  | VUint nat
  | VFloat64 "64 word"
  | VString string
  | VTime int
  | VFile string
  | VMap "(string \<times> val) list"
  | VSlice gotype "val list"

text \<open>\<^verbatim>\<open>reflect.Kind\<close> and its \<^verbatim>\<open>String()\<close>.\<close>

datatype kind =
    KInvalid | KBool | KInt | KInt8 | KInt16 | KInt32 | KInt64
  | KUint | KUint8 | KUint16 | KUint32 | KUint64 | KUintptr
  | KFloat32 | KFloat64 | KComplex64 | KComplex128
  | KArray | KChan | KFunc | KInterface | KMap | KPtr | KSlice | KString | KStruct
  | KUnsafePointer

fun Kind_String :: "kind \<Rightarrow> string" where
  "Kind_String KInvalid = ''invalid''"
| "Kind_String KBool = ''bool''"
| "Kind_String KInt = ''int''"
| "Kind_String KInt8 = ''int8''"
| "Kind_String KInt16 = ''int16''"
| "Kind_String KInt32 = ''int32''"
| "Kind_String KInt64 = ''int64''"
| "Kind_String KUint = ''uint''"
| "Kind_String KUint8 = ''uint8''"
| "Kind_String KUint16 = ''uint16''"
| "Kind_String KUint32 = ''uint32''"
| "Kind_String KUint64 = ''uint64''"
| "Kind_String KUintptr = ''uintptr''"
| "Kind_String KFloat32 = ''float32''"
| "Kind_String KFloat64 = ''float64''"
| "Kind_String KComplex64 = ''complex64''"
| "Kind_String KComplex128 = ''complex128''"
| "Kind_String KArray = ''array''"
| "Kind_String KChan = ''chan''"
| "Kind_String KFunc = ''func''"
| "Kind_String KInterface = ''interface''"
| "Kind_String KMap = ''map''"
| "Kind_String KPtr = ''ptr''"
| "Kind_String KSlice = ''slice''"
| "Kind_String KString = ''string''"
| "Kind_String KStruct = ''struct''"
| "Kind_String KUnsafePointer = ''unsafe.Pointer''"

fun kind_of :: "gotype \<Rightarrow> kind" where
  "kind_of TBool = KBool"
| "kind_of TInt = KInt"
| "kind_of TInt32 = KInt32"
| "kind_of TUint = KUint"
| "kind_of TFloat64 = KFloat64"
| "kind_of TString = KString"
| "kind_of TInterface = KInterface"
| "kind_of TTime = KStruct"
| "kind_of TFile = KStruct"
| "kind_of TMap = KMap"
| "kind_of (TSlice t) = KSlice"

fun Type_String :: "gotype \<Rightarrow> string" where
  "Type_String TBool = ''bool''"
| "Type_String TInt = ''int''"
| "Type_String TInt32 = ''int32''"
| "Type_String TUint = ''uint''"
| "Type_String TFloat64 = ''float64''"
| "Type_String TString = ''string''"
| "Type_String TInterface = ''interface {}''"
| "Type_String TTime = ''time.Time''"
| "Type_String TFile = ''filesystem.File''"
| "Type_String TMap = ''map[string]interface {}''"
| "Type_String (TSlice t) = ''[]'' @ Type_String t"

fun reflect_TypeOf :: "val \<Rightarrow> gotype option" where
  "reflect_TypeOf VNil = None"
| "reflect_TypeOf (VBool b) = Some TBool"
| "reflect_TypeOf (VInt i) = Some TInt"
| "reflect_TypeOf (VInt32 i) = Some TInt32"
| "reflect_TypeOf (VUint n) = Some TUint"
| "reflect_TypeOf (VFloat64 w) = Some TFloat64"
| "reflect_TypeOf (VString s) = Some TString"
| "reflect_TypeOf (VTime t) = Some TTime"
| "reflect_TypeOf (VFile f) = Some TFile"
| "reflect_TypeOf (VMap m) = Some TMap"
| "reflect_TypeOf (VSlice t xs) = Some (TSlice t)"

text \<open>
  A \<^verbatim>\<open>reflect.Value\<close>: the static type of the slot it designates (\<open>None\<close> for the zero
  Value) and the interface value read from it. \<^verbatim>\<open>reflect.ValueOf(x)\<close> designates a slot
  of the dynamic type of \<open>x\<close>; \<^verbatim>\<open>list.Index(i)\<close> designates a slot of the slice's
  element type, which is \<^verbatim>\<open>interface {}\<close> for a \<^verbatim>\<open>[]interface{}\<close>.
\<close>

datatype rvalue = ReflectValue (Type_of: "gotype option") (Interface: val)

definition reflect_ValueOf :: "val \<Rightarrow> rvalue" where
  "reflect_ValueOf x = ReflectValue (reflect_TypeOf x) x"

definition Kind :: "rvalue \<Rightarrow> kind" where
  "Kind v = (case Type_of v of None \<Rightarrow> KInvalid | Some t \<Rightarrow> kind_of t)"

text \<open>A panic (\<^verbatim>\<open>log.Panicf\<close> or a runtime panic) with its message.\<close>

datatype panic = Panic string

text \<open>
  \<^verbatim>\<open>v.Set(x)\<close> on an element slot of type \<open>et\<close>: panics on the zero Value and on a
  value whose type is not assignable to \<open>et\<close>; otherwise the slot holds \<open>x\<close>.
\<close>

definition reflect_Set :: "gotype \<Rightarrow> val \<Rightarrow> panic + val" where
  "reflect_Set et x =
     (case reflect_TypeOf x of
        None \<Rightarrow> Inl (Panic ''reflect: call of reflect.Value.Set on zero Value'')
      | Some t \<Rightarrow>
          if t = et \<or> et = TInterface then Inr x
          else Inl (Panic (''reflect.Set: value of type '' @ Type_String t
                 @ '' is not assignable to type '' @ Type_String et)))"

section \<open>The strings functions the parser calls\<close>

text \<open>\<^verbatim>\<open>strings.Index(s, sep)\<close> for a one-byte separator: the first index, or -1.\<close>

fun strings_Index :: "string \<Rightarrow> char \<Rightarrow> int" where
  "strings_Index [] c = - 1"
| "strings_Index (x # xs) c =
     (if x = c then 0
      else (let i = strings_Index xs c in if i = - 1 then - 1 else i + 1))"

definition strings_Count :: "string \<Rightarrow> char \<Rightarrow> int" where
  "strings_Count s c = int (count_list s c)"

text \<open>\<^verbatim>\<open>strings.Split(s, sep)\<close> for a one-byte separator; the empty string gives one
  empty field.\<close>

fun strings_Split :: "string \<Rightarrow> char \<Rightarrow> string list" where
  "strings_Split [] c = [[]]"
| "strings_Split (x # xs) c =
     (if x = c then [] # strings_Split xs c
      else (case strings_Split xs c of
              [] \<Rightarrow> [[x]]
            | w # ws \<Rightarrow> (x # w) # ws))"

definition strings_HasPrefix :: "string \<Rightarrow> string \<Rightarrow> bool" where
  "strings_HasPrefix s pre = (take (length pre) s = pre)"

section \<open>Rules and the registry\<close>

type_synonym data = "string \<rightharpoonup> val"

text \<open>
  A \<^verbatim>\<open>Rule\<close> is \<^verbatim>\<open>func(string, interface{}, []string, map[string]interface{}) bool\<close>.
  It may panic, and it may write into the map it is given ("Rules can modifiy the
  validated value if needed"), so the model returns the map as the rule left it.
\<close>

type_synonym Rule = "string \<Rightarrow> val \<Rightarrow> string list \<Rightarrow> data \<Rightarrow> panic + (bool \<times> data)"

type_synonym RuleSet = "(string \<times> string list) list"

type_synonym Errors = "string \<rightharpoonup> string list"

text \<open>
  What \<^verbatim>\<open>validator.go\<close> takes from other files: the bodies of the built-in rule
  functions (\<open>builtin ext name\<close> is the function that \<^verbatim>\<open>init\<close> registers under \<open>name\<close>,
  e.g. \<^verbatim>\<open>validateRequired\<close> for "required"), \<^verbatim>\<open>lang.Get\<close> and \<^verbatim>\<open>processPlaceholders\<close>.
  They are parameters of the model. \<^verbatim>\<open>validate\<close> calls \<^verbatim>\<open>validateRequired\<close> by name, not
  through the registry.
\<close>

record externals =
  builtin :: "string \<Rightarrow> Rule"
  lang_Get :: "string \<Rightarrow> string \<Rightarrow> string"
  processPlaceholders :: "string \<Rightarrow> string \<Rightarrow> string list \<Rightarrow> string \<Rightarrow> string \<Rightarrow> string"

definition validateRequired :: "externals \<Rightarrow> Rule" where
  "validateRequired ext = builtin ext ''required''"

text \<open>The package-level variables.\<close>

record registry =
  validationRules :: "string \<rightharpoonup> Rule"
  typeDependentMessageRules :: "string list"
  typeRules :: "string list"

definition init_rule_names :: "string list" where
  "init_rule_names =
    [''required'', ''numeric'', ''integer'', ''min'', ''max'', ''between'',
     ''greater_than'', ''greater_than_equal'', ''lower_than'', ''lower_than_equal'',
     ''string'', ''array'', ''distinct'', ''digits'', ''regex'', ''email'', ''size'',
     ''alpha'', ''alpha_dash'', ''alpha_num'', ''starts_with'', ''ends_with'', ''in'',
     ''not_in'', ''in_array'', ''not_in_array'', ''timezone'', ''ip'', ''ipv4'', ''ipv6'',
     ''json'', ''url'', ''uuid'', ''bool'', ''same'', ''different'', ''confirmed'', ''file'',
     ''mime'', ''image'', ''extension'', ''count'', ''count_min'', ''count_max'',
     ''count_between'', ''date'', ''before'', ''before_equal'', ''after'', ''after_equal'',
     ''date_equals'', ''date_between'']"

definition init :: "externals \<Rightarrow> registry" where
  "init ext =
    \<lparr> validationRules = map_of (map (\<lambda>name. (name, builtin ext name)) init_rule_names),
      typeDependentMessageRules =
        [''min'', ''max'', ''between'', ''size'',
         ''greater_than'', ''greater_than_equal'',
         ''lower_than'', ''lower_than_equal''],
      typeRules =
        [''numeric'', ''integer'', ''timezone'', ''ip'',
         ''ipv4'', ''ipv6'', ''json'', ''url'', ''uuid'',
         ''bool'', ''date'', ''string''] \<rparr>"

text \<open>
  \<^verbatim>\<open>AddRule\<close> writes the package variables. The result is the panic, if any, and the
  registry as the call left it: \<^verbatim>\<open>log.Panicf\<close> is reached before any assignment.
\<close>

definition AddRule :: "string \<Rightarrow> bool \<Rightarrow> Rule \<Rightarrow> registry \<Rightarrow> panic option \<times> registry" where
  "AddRule name typeDependentMessage rule st =
     (if validationRules st name \<noteq> None
      then (Some (Panic (''Rule '' @ name @ '' already exists'')), st)
      else
        (let st1 = st\<lparr>validationRules := (validationRules st)(name \<mapsto> rule)\<rparr>;
             st2 = (if typeDependentMessage
                    then st1\<lparr>typeDependentMessageRules := typeDependentMessageRules st1 @ [name]\<rparr>
                    else st1)
         in (None, st2)))"

text \<open>
  \<^verbatim>\<open>parseRule\<close>. \<^verbatim>\<open>ruleName[0]\<close> on an empty name is an index out of range.
\<close>

definition parseRule :: "registry \<Rightarrow> string \<Rightarrow> panic + (string \<times> bool \<times> string list)" where
  "parseRule reg rule =
     (let indexName = strings_Index rule CHR '':'' in
      if indexName = - 1 \<and> strings_Count rule CHR '','' > 0
      then Inl (Panic (''Invalid rule: '' @ [CHR 0x22] @ rule @ [CHR 0x22]))
      else
        (let ruleName = (if indexName = - 1 then rule else take (nat indexName) rule);
             params = (if indexName = - 1 then []
                       else strings_Split (drop (nat (indexName + 1)) rule) CHR '','')
         in
           if ruleName = [] then Inl (Panic ''runtime error: index out of range [0] with length 0'')
           else
             (let validatesArray = (hd ruleName = CHR ''>'');
                  ruleName = (if validatesArray then tl ruleName else ruleName)
              in
                if validationRules reg ruleName = None
                then Inl (Panic (''Rule '' @ [CHR 0x22] @ ruleName @ [CHR 0x22] @ '' doesn'' @ [CHR 0x27] @ ''t exist''))
                else Inr (ruleName, validatesArray, params))))"

section \<open>Type classification and messages\<close>

text \<open>
  Modelled from the spec: \<^verbatim>\<open>helper.Contains\<close> (package \<^verbatim>\<open>helper\<close>, not among the
  sources) decides whether a rule list "requests" a marker, that is whether the slice
  holds the value.
\<close>

fun helper_Contains :: "string list \<Rightarrow> string \<Rightarrow> bool" where
  "helper_Contains [] v = False"
| "helper_Contains (x # xs) v = (if x = v then True else helper_Contains xs v)"

definition isTypeDependent :: "registry \<Rightarrow> string \<Rightarrow> bool" where
  "isTypeDependent reg rule = helper_Contains (typeDependentMessageRules reg) rule"

definition isArrayType :: "registry \<Rightarrow> string \<Rightarrow> bool" where
  "isArrayType reg rule = helper_Contains (typeRules reg) rule"

definition isRequired :: "string list \<Rightarrow> bool" where
  "isRequired field = helper_Contains field ''required''"

definition isNullable :: "string list \<Rightarrow> bool" where
  "isNullable field = helper_Contains field ''nullable''"

definition isArray :: "string list \<Rightarrow> bool" where
  "isArray field = helper_Contains field ''array''"

text \<open>
  \<^verbatim>\<open>getFieldType\<close>. \<^verbatim>\<open>value.Type()\<close> is read only under kind "slice", where the Value is
  not the zero Value.
\<close>

definition getFieldType :: "rvalue \<Rightarrow> string" where
  "getFieldType value =
     (let kind = Kind_String (Kind value) in
      if strings_HasPrefix kind ''int''
         \<or> (strings_HasPrefix kind ''uint'' \<and> kind \<noteq> ''uintptr'')
         \<or> strings_HasPrefix kind ''float''
      then ''numeric''
      else if kind = ''string'' then ''string''
      else if kind = ''slice'' then
        (if (case Type_of value of None \<Rightarrow> False
             | Some t \<Rightarrow> Type_String t = ''[]filesystem.File'')
         then ''file'' else ''array'')
      else ''unsupported'')"

definition GetFieldType :: "val \<Rightarrow> string" where
  "GetFieldType value = getFieldType (reflect_ValueOf value)"

text \<open>
  \<^verbatim>\<open>getMessage\<close>: \<open>getMessage_langEntry\<close> is the value of \<^verbatim>\<open>langEntry\<close> at the call of
  \<^verbatim>\<open>lang.Get\<close>.
\<close>

definition getMessage_langEntry :: "registry \<Rightarrow> string \<Rightarrow> rvalue \<Rightarrow> bool \<Rightarrow> string" where
  "getMessage_langEntry reg rule value inArray =
     (let langEntry = ''validation.rules.'' @ rule;
          langEntry = (if isTypeDependent reg rule
                       then langEntry @ ''.'' @ getFieldType value else langEntry);
          langEntry = (if inArray then langEntry @ ''.array'' else langEntry)
      in langEntry)"

definition getMessage :: "externals \<Rightarrow> registry \<Rightarrow> string \<Rightarrow> rvalue \<Rightarrow> string \<Rightarrow> bool \<Rightarrow> string" where
  "getMessage ext reg rule value language inArray =
     lang_Get ext language (getMessage_langEntry reg rule value inArray)"

section \<open>Validation\<close>

text \<open>\<^verbatim>\<open>data[fieldName]\<close>: the nil interface for a key the map does not hold.\<close>

definition data_at :: "data \<Rightarrow> string \<Rightarrow> val" where
  "data_at data fieldName = (case data fieldName of None \<Rightarrow> VNil | Some v \<Rightarrow> v)"

text \<open>\<^verbatim>\<open>errors[fieldName] = append(errors[fieldName], message)\<close>.\<close>

definition append_error :: "Errors \<Rightarrow> string \<Rightarrow> string \<Rightarrow> Errors" where
  "append_error errors fieldName message =
     errors(fieldName \<mapsto> (case errors fieldName of None \<Rightarrow> [] | Some l \<Rightarrow> l) @ [message])"

text \<open>
  The request, as far as the package reads it: \<^verbatim>\<open>request.Header.Get("Content-Type")\<close>
  is the first value stored under the key, or the empty string. The argument is a
  pointer: \<open>None\<close> is the nil pointer, whose dereference panics.
\<close>

record Request =
  Header :: "string \<rightharpoonup> string list"

definition Header_Get :: "(string \<rightharpoonup> string list) \<Rightarrow> string \<Rightarrow> string" where
  "Header_Get h key = (case h key of None \<Rightarrow> [] | Some [] \<Rightarrow> [] | Some (v # vs) \<Rightarrow> v)"

definition nil_dereference :: panic where
  "nil_dereference = Panic ''runtime error: invalid memory address or nil pointer dereference''"

text \<open>
  \<^verbatim>\<open>convertArray\<close>. \<^verbatim>\<open>reflect.TypeOf(nil)\<close> is nil, and \<^verbatim>\<open>reflect.SliceOf\<close> of the nil
  type panics.
\<close>

definition convertArray :: "bool \<Rightarrow> string \<Rightarrow> string list \<Rightarrow> data \<Rightarrow> panic + data" where
  "convertArray isJSON fieldName field data =
     (if \<not> isJSON then
        (let val = data_at data fieldName;
             rv = reflect_ValueOf val;
             kind = Kind_String (Kind rv)
         in if isArray field \<and> kind \<noteq> ''slice'' then
              (case reflect_TypeOf val of
                 None \<Rightarrow> Inl nil_dereference
               | Some rt \<Rightarrow> Inr (data(fieldName \<mapsto> VSlice rt [val])))
            else Inr data)
      else Inr data)"

text \<open>
  The loop of \<^verbatim>\<open>validateRuleInArray\<close> over the elements of the slice, from the element
  at hand on: the result is the failing element's Value, if any, and the elements as
  the loop left them. Calling a rule that the registry does not hold is a call of a
  nil function.
\<close>

fun validateElements ::
  "Rule option \<Rightarrow> string \<Rightarrow> string list \<Rightarrow> gotype \<Rightarrow> val list \<Rightarrow> panic + (rvalue option \<times> val list)" where
  "validateElements rule fieldName params et [] = Inr (None, [])"
| "validateElements rule fieldName params et (value # rest) =
     (case rule of
        None \<Rightarrow> Inl nil_dereference
      | Some r \<Rightarrow>
         (case r fieldName value params [fieldName \<mapsto> value] of
            Inl e \<Rightarrow> Inl e
          | Inr (ok, tmpData) \<Rightarrow>
              if \<not> ok then Inr (Some (ReflectValue (Some et) value), value # rest)
              else
                (case reflect_Set et (data_at tmpData fieldName) of
                   Inl e \<Rightarrow> Inl e
                 | Inr value' \<Rightarrow>
                     (case validateElements rule fieldName params et rest of
                        Inl e \<Rightarrow> Inl e
                      | Inr (errorValue, rest') \<Rightarrow> Inr (errorValue, value' # rest')))))"

definition validateRuleInArray ::
  "registry \<Rightarrow> string \<Rightarrow> string \<Rightarrow> data \<Rightarrow> string list \<Rightarrow> panic + (rvalue option \<times> data)" where
  "validateRuleInArray reg ruleName fieldName data params =
     (let t = GetFieldType (data_at data fieldName) in
      if t \<noteq> ''array''
      then Inl (Panic (''Cannot validate array values on non-array field '' @ fieldName
                       @ '' of type '' @ t))
      else
        (case data_at data fieldName of
           VSlice et list \<Rightarrow>
             (case validateElements (validationRules reg ruleName) fieldName params et list of
                Inl e \<Rightarrow> Inl e
              | Inr (errorValue, list') \<Rightarrow> Inr (errorValue, data(fieldName \<mapsto> VSlice et list')))
         | _ \<Rightarrow> Inl (Panic ''reflect: call of reflect.Value.Len on a value that is not a slice'')))"

text \<open>
  The body of the inner loop of \<^verbatim>\<open>validate\<close> for a token other than "nullable".
\<close>

definition validate_rule ::
  "externals \<Rightarrow> registry \<Rightarrow> string \<Rightarrow> string \<Rightarrow> string \<Rightarrow> data \<Rightarrow> Errors \<Rightarrow> panic + (data \<times> Errors)" where
  "validate_rule ext reg language fieldName rule data errors =
     (case parseRule reg rule of
        Inl e \<Rightarrow> Inl e
      | Inr (ruleName, validatesArray, params) \<Rightarrow>
          if validatesArray then
            (case validateRuleInArray reg ruleName fieldName data params of
               Inl e \<Rightarrow> Inl e
             | Inr (errorValue, data') \<Rightarrow>
                 (case errorValue of
                    Some ev \<Rightarrow>
                      Inr (data', append_error errors fieldName
                        (processPlaceholders ext fieldName ruleName params
                           (getMessage ext reg ruleName ev language validatesArray) language))
                  | None \<Rightarrow> Inr (data', errors)))
          else
            (case validationRules reg ruleName of
               None \<Rightarrow> Inl nil_dereference
             | Some r \<Rightarrow>
                 (case r fieldName (data_at data fieldName) params data of
                    Inl e \<Rightarrow> Inl e
                  | Inr (ok, data') \<Rightarrow>
                      if \<not> ok then
                        Inr (data', append_error errors fieldName
                          (processPlaceholders ext fieldName ruleName params
                             (getMessage ext reg ruleName
                                (reflect_ValueOf (data_at data' fieldName)) language validatesArray)
                             language))
                      else Inr (data', errors))))"

text \<open>The inner loop \<^verbatim>\<open>for _, rule := range field\<close>, with its break and continue.\<close>

fun validate_rules ::
  "externals \<Rightarrow> registry \<Rightarrow> string \<Rightarrow> string \<Rightarrow> string list \<Rightarrow> data \<Rightarrow> Errors \<Rightarrow> panic + (data \<times> Errors)" where
  "validate_rules ext reg language fieldName [] data errors = Inr (data, errors)"
| "validate_rules ext reg language fieldName (rule # rest) data errors =
     (if rule = ''nullable'' then
        (if data_at data fieldName = VNil then Inr (data, errors)
         else validate_rules ext reg language fieldName rest data errors)
      else
        (case validate_rule ext reg language fieldName rule data errors of
           Inl e \<Rightarrow> Inl e
         | Inr (data', errors') \<Rightarrow> validate_rules ext reg language fieldName rest data' errors'))"

text \<open>
  The body of the outer loop for one entry of the rule set. \<^verbatim>\<open>validateRequired\<close> is
  called only when the list does not hold "required" (\<^verbatim>\<open>&&\<close> evaluates its right
  operand only then).
\<close>

definition validate_field ::
  "externals \<Rightarrow> registry \<Rightarrow> bool \<Rightarrow> string \<Rightarrow> string \<Rightarrow> string list \<Rightarrow> data \<Rightarrow> Errors \<Rightarrow> panic + (data \<times> Errors)" where
  "validate_field ext reg isJSON language fieldName field data errors =
     (let data1 = (if \<not> isNullable field \<and> data_at data fieldName = VNil
                   then data(fieldName := None) else data)
      in
        case (if \<not> isRequired field
              then validateRequired ext fieldName (data_at data1 fieldName) [] data1
              else Inr (True, data1)) of
          Inl e \<Rightarrow> Inl e
        | Inr (present, data2) \<Rightarrow>
            if \<not> isRequired field \<and> \<not> present then Inr (data2, errors)
            else
              (case convertArray isJSON fieldName field data2 of
                 Inl e \<Rightarrow> Inl e
               | Inr data3 \<Rightarrow> validate_rules ext reg language fieldName field data3 errors))"

text \<open>
  The outer loop \<^verbatim>\<open>for fieldName, field := range rules\<close>. The rule set is a Go map; the
  list gives its entries in the order the loop visits them.
\<close>

fun validate_fields ::
  "externals \<Rightarrow> registry \<Rightarrow> bool \<Rightarrow> string \<Rightarrow> RuleSet \<Rightarrow> data \<Rightarrow> Errors \<Rightarrow> panic + (data \<times> Errors)" where
  "validate_fields ext reg isJSON language [] data errors = Inr (data, errors)"
| "validate_fields ext reg isJSON language ((fieldName, field) # rest) data errors =
     (case validate_field ext reg isJSON language fieldName field data errors of
        Inl e \<Rightarrow> Inl e
      | Inr (data', errors') \<Rightarrow> validate_fields ext reg isJSON language rest data' errors')"

text \<open>
  \<^verbatim>\<open>validate\<close> returns the errors; the model returns the data map with them, since the
  caller's map is the one written to.
\<close>

definition validate ::
  "externals \<Rightarrow> registry \<Rightarrow> Request option \<Rightarrow> data \<Rightarrow> RuleSet \<Rightarrow> string \<Rightarrow> panic + (data \<times> Errors)" where
  "validate ext reg request data rules language =
     (case request of
        None \<Rightarrow> Inl nil_dereference
      | Some req \<Rightarrow>
          (let errors = Map.empty;
               isJSON = (Header_Get (Header req) ''Content-Type'' = ''application/json'')
           in validate_fields ext reg isJSON language rules data errors))"

text \<open>\<^verbatim>\<open>Validate\<close>: the data argument may be the nil map (\<open>None\<close>).\<close>

definition Validate ::
  "externals \<Rightarrow> registry \<Rightarrow> Request option \<Rightarrow> data option \<Rightarrow> RuleSet \<Rightarrow> string
     \<Rightarrow> panic + (data option \<times> Errors)" where
  "Validate ext reg request data rules language =
     (case request of
        None \<Rightarrow> Inl nil_dereference
      | Some req \<Rightarrow>
          (let malformedMessage =
                 (if Header_Get (Header req) ''Content-Type'' = ''application/json''
                  then ''Malformed JSON'' else ''Malformed request'')
           in case data of
                None \<Rightarrow> Inr (None, [''error'' \<mapsto> [malformedMessage]])
              | Some d \<Rightarrow>
                  (case validate ext reg request d rules language of
                     Inl e \<Rightarrow> Inl e
                   | Inr (d', errors) \<Rightarrow> Inr (Some d', errors))))"

section \<open>Well-behaved rules\<close>

text \<open>
  \<open>same_but f d d'\<close> relates two maps that differ at most in the value stored under
  \<open>f\<close>: the key \<open>f\<close> is in both or in neither, and every other entry is the same. A rule
  is \<open>confined\<close> when, called the way \<^verbatim>\<open>validate\<close> and \<^verbatim>\<open>validateRuleInArray\<close> call it (on
  a map and the value the map holds for the field), it leaves the map so: it may
  replace the value of its field, as "numeric" does when it converts a string, but it
  neither adds nor deletes a key and writes no other field.
\<close>

definition same_but :: "string \<Rightarrow> data \<Rightarrow> data \<Rightarrow> bool" where
  "same_but f d d' = ((d' f = None \<longleftrightarrow> d f = None) \<and> (\<forall>k. k \<noteq> f \<longrightarrow> d' k = d k))"

definition confined :: "Rule \<Rightarrow> bool" where
  "confined r =
     (\<forall>f ps d ok d'. r f (data_at d f) ps d = Inr (ok, d') \<longrightarrow> same_but f d d')"

section \<open>Sample rules\<close>

text \<open>
  Concrete rules and externals at which the theorems below are instantiated.
  \<open>sample_required\<close> passes when the form holds the field and the field is not the empty
  string; \<open>sample_numeric\<close> passes on a value of numeric type; \<open>sample_min\<close> compares the
  length of a string or slice with its first parameter; \<open>sees_other\<close> is a cross-field
  rule that passes when the form holds the key "other"; \<open>always b\<close> returns \<open>b\<close>. These
  do not write to the form. \<open>sample_integer\<close> passes on an integer and on a string of
  digits, which it replaces in the form by the integer it denotes. The sample \<^verbatim>\<open>lang.Get\<close> returns the lookup key itself and the
  sample \<^verbatim>\<open>processPlaceholders\<close> returns the message unchanged.
\<close>

fun parse_nat_acc :: "nat \<Rightarrow> string \<Rightarrow> nat option" where
  "parse_nat_acc acc [] = Some acc"
| "parse_nat_acc acc (c # cs) =
     (if 48 \<le> (of_char c :: nat) \<and> (of_char c :: nat) \<le> 57
      then parse_nat_acc (10 * acc + (of_char c - 48)) cs else None)"

definition sample_required :: Rule where
  "sample_required field value params form =
     Inr (case form field of None \<Rightarrow> False | Some v \<Rightarrow> v \<noteq> VString [], form)"

definition sample_numeric :: Rule where
  "sample_numeric field value params form = Inr (GetFieldType value = ''numeric'', form)"

definition sample_min :: Rule where
  "sample_min field value params form =
     (case params of
        [] \<Rightarrow> Inl (Panic ''Rule min requires 1 parameter(s)'')
      | p # ps \<Rightarrow>
          (case (if p = [] then None else parse_nat_acc 0 p) of
             None \<Rightarrow> Inl (Panic ''min: the parameter is not a number'')
           | Some n \<Rightarrow>
               (case value of
                  VString s \<Rightarrow> Inr (n \<le> length s, form)
                | VSlice t xs \<Rightarrow> Inr (n \<le> length xs, form)
                | _ \<Rightarrow> Inr (True, form))))"

definition sample_integer :: Rule where
  "sample_integer field value params form =
     (case value of
        VInt i \<Rightarrow> Inr (True, form)
      | VString s \<Rightarrow>
          (case (if s = [] then None else parse_nat_acc 0 s) of
             None \<Rightarrow> Inr (False, form)
           | Some n \<Rightarrow> Inr (True, form(field \<mapsto> VInt (int n))))
      | _ \<Rightarrow> Inr (False, form))"

definition always :: "bool \<Rightarrow> Rule" where
  "always b field value params form = Inr (b, form)"

definition sees_other :: Rule where
  "sees_other field value params form = Inr (form ''other'' \<noteq> None, form)"

definition sample_ext :: externals where
  "sample_ext =
     \<lparr> builtin = (\<lambda>name. if name = ''required'' then sample_required
                       else if name = ''numeric'' then sample_numeric
                       else if name = ''min'' then sample_min
                       else if name = ''integer'' then sample_integer
                       else always True),
       lang_Get = (\<lambda>language entry. entry),
       processPlaceholders = (\<lambda>fieldName ruleName params message language. message) \<rparr>"

definition other_registry :: registry where
  "other_registry =
     \<lparr> validationRules = [''sees_other'' \<mapsto> sees_other], typeDependentMessageRules = [], typeRules = [] \<rparr>"

definition other_data :: data where
  "other_data = [''list'' \<mapsto> VSlice TString [VString ''a''], ''other'' \<mapsto> VString ''x'']"

section \<open>Date validators\<close>

text \<open>
  The repository tests \<^verbatim>\<open>After\<close>, \<^verbatim>\<open>AfterEqual\<close>, \<^verbatim>\<open>AfterField\<close> and \<^verbatim>\<open>AfterEqualField\<close>;
  the validators themselves and the path resolver they call are modelled below. An
  instant (\<^verbatim>\<open>time.Time\<close>) is \<open>VTime n\<close>, \<open>n\<close> its Unix time.
\<close>

text \<open>
  Modelled from the spec: the field path parser (not among the sources). A path is a
  dotted sequence of components; a trailing "[]" on a component marks it as "for each
  element"; a component with an empty name or a stray bracket is a malformed path,
  which fails fatally at construction.
\<close>

datatype PathSegment = Segment (seg_name: string) (seg_each: bool)

definition parse_segment :: "string \<Rightarrow> panic + PathSegment" where
  "parse_segment s =
     (let each = (2 \<le> length s \<and> drop (length s - 2) s = ''[]'');
          name = (if each then take (length s - 2) s else s)
      in if name = [] \<or> CHR ''['' \<in> set name \<or> CHR '']'' \<in> set name
         then Inl (Panic (''invalid path segment: '' @ s))
         else Inr (Segment name each))"

fun parse_segments :: "string list \<Rightarrow> panic + PathSegment list" where
  "parse_segments [] = Inr []"
| "parse_segments (s # ss) =
     (case parse_segment s of
        Inl e \<Rightarrow> Inl e
      | Inr seg \<Rightarrow>
          (case parse_segments ss of
             Inl e \<Rightarrow> Inl e
           | Inr segs \<Rightarrow> Inr (seg # segs)))"

definition parse_path :: "string \<Rightarrow> panic + PathSegment list" where
  "parse_path p = parse_segments (strings_Split p CHR ''.'')"

text \<open>
  Modelled from the spec: the Field Path Resolver (not among the sources). It walks
  the path from the root of the data tree and returns the values found, one per
  element under a "for each element" component. It fails fatally when a component is
  looked up in a value that is not a map, when a "for each element" component does not
  hold an array, and (the spec names no other outcome) when a map does not hold the
  component.
\<close>

fun collect :: "(panic + val list) list \<Rightarrow> panic + val list" where
  "collect [] = Inr []"
| "collect (r # rs) =
     (case r of
        Inl e \<Rightarrow> Inl e
      | Inr vs \<Rightarrow> (case collect rs of Inl e \<Rightarrow> Inl e | Inr ws \<Rightarrow> Inr (vs @ ws)))"

fun resolve :: "PathSegment list \<Rightarrow> val \<Rightarrow> panic + val list" where
  "resolve [] v = Inr [v]"
| "resolve (Segment name each # rest) v =
     (case v of
        VMap m \<Rightarrow>
          (case map_of m name of
             None \<Rightarrow> Inl (Panic (''path segment does not resolve: '' @ name))
           | Some child \<Rightarrow>
               if each then
                 (case child of
                    VSlice et xs \<Rightarrow> collect (map (resolve rest) xs)
                  | _ \<Rightarrow> Inl (Panic (''array semantics on a value that is not an array: '' @ name)))
               else resolve rest child)
      | _ \<Rightarrow> Inl (Panic (''path segment in a value that is not a container: '' @ name)))"

text \<open>The context of the tests: the value under validation and the data tree.\<close>

record ContextV5 =
  Value :: val
  Data :: "(string \<times> val) list"

text \<open>
  Modelled from the spec: the validators \<^verbatim>\<open>After\<close>, \<^verbatim>\<open>AfterEqual\<close> and their
  field-referencing variants (not among the sources). A validator holds its reference
  instant or its parsed path. \<^verbatim>\<open>Validate\<close> fails on a candidate that is not a date; it
  compares a date with the reference, strictly for \<^verbatim>\<open>After\<close>; the field variants resolve
  the path in the context's data tree when \<^verbatim>\<open>Validate\<close> runs and compare with every
  value found. A reference that is not a date fails the comparison (the spec does not
  say).
\<close>

datatype Validator =
    AfterValidator int
  | AfterEqualValidator int
  | AfterFieldValidator "PathSegment list"
  | AfterEqualFieldValidator "PathSegment list"

definition After :: "int \<Rightarrow> Validator" where
  "After ref = AfterValidator ref"

definition AfterEqual :: "int \<Rightarrow> Validator" where
  "AfterEqual ref = AfterEqualValidator ref"

definition AfterField :: "string \<Rightarrow> panic + Validator" where
  "AfterField path =
     (case parse_path path of Inl e \<Rightarrow> Inl e | Inr p \<Rightarrow> Inr (AfterFieldValidator p))"

definition AfterEqualField :: "string \<Rightarrow> panic + Validator" where
  "AfterEqualField path =
     (case parse_path path of Inl e \<Rightarrow> Inl e | Inr p \<Rightarrow> Inr (AfterEqualFieldValidator p))"

definition compare_dates :: "bool \<Rightarrow> val \<Rightarrow> val list \<Rightarrow> bool" where
  "compare_dates orEqual value refs =
     (case value of
        VTime t \<Rightarrow>
          list_all (\<lambda>r. case r of VTime rt \<Rightarrow> (if orEqual then rt \<le> t else rt < t) | _ \<Rightarrow> False) refs
      | _ \<Rightarrow> False)"

definition compare_with_field :: "bool \<Rightarrow> PathSegment list \<Rightarrow> ContextV5 \<Rightarrow> panic + bool" where
  "compare_with_field orEqual path ctx =
     (case Value ctx of
        VTime t \<Rightarrow>
          (case resolve path (VMap (Data ctx)) of
             Inl e \<Rightarrow> Inl e
           | Inr refs \<Rightarrow> Inr (compare_dates orEqual (VTime t) refs))
      | _ \<Rightarrow> Inr False)"

fun Validator_Validate :: "Validator \<Rightarrow> ContextV5 \<Rightarrow> panic + bool" where
  "Validator_Validate (AfterValidator ref) ctx = Inr (compare_dates False (Value ctx) [VTime ref])"
| "Validator_Validate (AfterEqualValidator ref) ctx = Inr (compare_dates True (Value ctx) [VTime ref])"
| "Validator_Validate (AfterFieldValidator path) ctx = compare_with_field False path ctx"
| "Validator_Validate (AfterEqualFieldValidator path) ctx = compare_with_field True path ctx"

text \<open>\<^verbatim>\<open>makeAfterFieldData\<close> of the tests: \<^verbatim>\<open>{"object": {"field": ref}}\<close>.\<close>

definition makeAfterFieldData :: "int list \<Rightarrow> (string \<times> val) list" where
  "makeAfterFieldData ref = [(''object'', VMap [(''field'', VSlice TTime (map VTime ref))])]"

section \<open>Rule registry\<close>

lemma init_registered:
  "validationRules (init ext) name = (if name \<in> set init_rule_names then Some (builtin ext name) else None)"
  by (simp add: init_def map_of_map_restrict restrict_map_def)

lemma init_has_min: "validationRules (init ext) ''min'' = Some (builtin ext ''min'')"
  by (simp add: init_registered init_rule_names_def)

lemma init_has_required: "validationRules (init ext) ''required'' = Some (builtin ext ''required'')"
  by (simp add: init_registered init_rule_names_def)

lemma init_has_numeric: "validationRules (init ext) ''numeric'' = Some (builtin ext ''numeric'')"
  by (simp add: init_registered init_rule_names_def)

lemma init_lacks_invalidrule: "validationRules (init ext) ''invalidrule'' = None"
  by (simp add: init_registered init_rule_names_def)

text \<open>
  C4. With the registry as \<^verbatim>\<open>init\<close> leaves it, \<^verbatim>\<open>parseRule("min:5")\<close> returns the name
  "min", \<^verbatim>\<open>validatesArray = false\<close> and the parameters ["5"]; \<^verbatim>\<open>parseRule(">min:3")\<close>
  returns "min", \<^verbatim>\<open>validatesArray = true\<close> and ["3"]; \<^verbatim>\<open>parseRule("invalid,rule")\<close>
  (a comma and no colon) and \<^verbatim>\<open>parseRule("invalidrule")\<close> (a name that is not
  registered) both panic.
\<close>

theorem parseRule_examples:
  "parseRule (init ext) ''min:5'' = Inr (''min'', False, [''5''])
   \<and> parseRule (init ext) ''>min:3'' = Inr (''min'', True, [''3''])
   \<and> parseRule (init ext) ''invalid,rule'' =
       Inl (Panic (''Invalid rule: '' @ [CHR 0x22] @ ''invalid,rule'' @ [CHR 0x22]))
   \<and> parseRule (init ext) ''invalidrule'' =
       Inl (Panic (''Rule '' @ [CHR 0x22] @ ''invalidrule'' @ [CHR 0x22] @ '' doesn'' @ [CHR 0x27] @ ''t exist''))"
proof -
  have a: "parseRule (init ext) ''min:5'' = Inr (''min'', False, [''5''])"
    by (simp add: parseRule_def strings_Count_def init_has_min Let_def)
  have b: "parseRule (init ext) ''>min:3'' = Inr (''min'', True, [''3''])"
    by (simp add: parseRule_def strings_Count_def init_has_min Let_def)
  have c: "parseRule (init ext) ''invalid,rule'' =
       Inl (Panic (''Invalid rule: '' @ [CHR 0x22] @ ''invalid,rule'' @ [CHR 0x22]))"
    by (simp add: parseRule_def strings_Count_def Let_def)
  have d: "parseRule (init ext) ''invalidrule'' =
       Inl (Panic (''Rule '' @ [CHR 0x22] @ ''invalidrule'' @ [CHR 0x22] @ '' doesn'' @ [CHR 0x27] @ ''t exist''))"
    by (simp add: parseRule_def strings_Count_def init_lacks_invalidrule Let_def)
  from a b c d show ?thesis by blast
qed

text \<open>
  C8. When a name is already registered, \<^verbatim>\<open>AddRule\<close> panics and writes nothing: the
  registry after the failed call is the registry before it, so the name still maps to
  the rule of the first registration and the list of type-dependent rules is unchanged.
\<close>

theorem AddRule_twice:
  assumes "validationRules st name = Some r"
  shows "AddRule name tdm r' st = (Some (Panic (''Rule '' @ name @ '' already exists'')), st)
       \<and> validationRules (snd (AddRule name tdm r' st)) name = Some r
       \<and> typeDependentMessageRules (snd (AddRule name tdm r' st)) = typeDependentMessageRules st"
  using assms by (simp add: AddRule_def)

theorem AddRule_twice_witness:
  "validationRules (snd (AddRule ''new_rule'' False sample_required (init sample_ext))) ''new_rule''
      = Some sample_required
   \<and> AddRule ''new_rule'' True sample_numeric
        (snd (AddRule ''new_rule'' False sample_required (init sample_ext)))
      = (Some (Panic ''Rule new_rule already exists''),
         snd (AddRule ''new_rule'' False sample_required (init sample_ext)))
   \<and> validationRules
        (snd (AddRule ''new_rule'' True sample_numeric
               (snd (AddRule ''new_rule'' False sample_required (init sample_ext))))) ''new_rule''
      = Some sample_required"
proof -
  have fresh: "validationRules (init sample_ext) ''new_rule'' = None"
    by (simp add: init_registered init_rule_names_def)
  have h: "validationRules (snd (AddRule ''new_rule'' False sample_required (init sample_ext))) ''new_rule''
      = Some sample_required"
    using fresh by (simp add: AddRule_def)
  show ?thesis
    using h AddRule_twice [OF h, of True sample_numeric] by simp
qed

section \<open>Malformed requests\<close>

text \<open>
  C10. \<^verbatim>\<open>Validate\<close> on the nil data map returns, whatever the registry, the rule set and
  the language are (so no rule is called and nothing panics), the errors map whose
  only key is "error", with the single message "Malformed JSON" when the Content-Type
  header of the request is "application/json" and "Malformed request" otherwise.
\<close>

theorem Validate_nil_data:
  "Validate ext reg (Some req) None rules language =
     Inr (None, [''error'' \<mapsto>
        [if Header_Get (Header req) ''Content-Type'' = ''application/json''
         then ''Malformed JSON'' else ''Malformed request'']])"
  by (simp add: Validate_def)

section \<open>Message keys\<close>

text \<open>
  \<^verbatim>\<open>getMessage\<close> looks up the key "validation.rules." + rule, followed by "." and the
  result of \<^verbatim>\<open>getFieldType\<close> exactly when the rule is type-dependent, followed by
  ".array" exactly when the check ran on array elements. Values that \<^verbatim>\<open>getFieldType\<close>
  classifies as "numeric" and as "string" get different keys under a type-dependent
  rule, and the array flag appends the fixed suffix ".array" whatever the rule is.
\<close>

lemma getMessage_key_form:
  "getMessage ext reg rule value language inArray =
      lang_Get ext language
        (''validation.rules.'' @ rule
          @ (if isTypeDependent reg rule then ''.'' @ getFieldType value else [])
          @ (if inArray then ''.array'' else []))
   \<and> (isTypeDependent reg rule \<longrightarrow> getFieldType v1 = ''numeric'' \<longrightarrow> getFieldType v2 = ''string''
        \<longrightarrow> getMessage_langEntry reg rule v1 a1 \<noteq> getMessage_langEntry reg rule v2 a2)
   \<and> getMessage_langEntry reg rule value True = getMessage_langEntry reg rule value False @ ''.array''"
  by (simp add: getMessage_def getMessage_langEntry_def Let_def)

text \<open>
  \<^verbatim>\<open>reflect.ValueOf\<close> of a string is classified "string", of an integer or a float
  "numeric": on the values that the check of a whole field passes to \<^verbatim>\<open>getMessage\<close> the
  keys of strings and numbers differ.
\<close>

lemma getFieldType_of_value:
  "getFieldType (reflect_ValueOf (VString s)) = ''string''"
  "getFieldType (reflect_ValueOf (VInt i)) = ''numeric''"
  "getFieldType (reflect_ValueOf (VInt32 i)) = ''numeric''"
  "getFieldType (reflect_ValueOf (VUint n)) = ''numeric''"
  "getFieldType (reflect_ValueOf (VFloat64 w)) = ''numeric''"
  by (simp_all add: getFieldType_def reflect_ValueOf_def Kind_def strings_HasPrefix_def)

section \<open>Parsing inside validation\<close>

lemma parse_required:
  "validationRules reg ''required'' = Some r \<Longrightarrow> parseRule reg ''required'' = Inr (''required'', False, [])"
  by (simp add: parseRule_def strings_Count_def Let_def)

lemma parse_numeric:
  "validationRules reg ''numeric'' = Some r \<Longrightarrow> parseRule reg ''numeric'' = Inr (''numeric'', False, [])"
  by (simp add: parseRule_def strings_Count_def Let_def)

lemma parse_each_min_3:
  "validationRules reg ''min'' = Some r \<Longrightarrow> parseRule reg ''>min:3'' = Inr (''min'', True, [''3''])"
  by (simp add: parseRule_def strings_Count_def Let_def)

lemma validate_single_field:
  "validate ext reg (Some req) data [(f, field)] language =
     validate_field ext reg (Header_Get (Header req) ''Content-Type'' = ''application/json'')
       language f field data Map.empty"
  by (simp add: validate_def Let_def split: sum.splits)

section \<open>The nullable marker\<close>

lemma required_nullable_numeric_flags:
  "isNullable [''required'', ''nullable'', ''numeric'']"
  "isRequired [''required'', ''nullable'', ''numeric'']"
  "\<not> isArray [''required'', ''nullable'', ''numeric'']"
  by (simp_all add: isNullable_def isRequired_def isArray_def)

lemma nullable_stops_on_nil:
  assumes reg_required: "validationRules reg ''required'' = Some required"
    and required_nil:
      "required ''nullField'' VNil [] [''nullField'' \<mapsto> VNil] = Inr (True, [''nullField'' \<mapsto> VNil])"
  shows "validate ext reg (Some req) [''nullField'' \<mapsto> VNil]
        [(''nullField'', [''required'', ''nullable'', ''numeric''])] language
       = Inr ([''nullField'' \<mapsto> VNil], Map.empty)"
proof -
  note flags = required_nullable_numeric_flags
  have conv: "\<And>j d. convertArray j ''nullField'' [''required'', ''nullable'', ''numeric''] d = Inr d"
    using flags by (simp add: convertArray_def Let_def)
  have r1: "validate_rule ext reg language ''nullField'' ''required'' [''nullField'' \<mapsto> VNil] Map.empty
      = Inr ([''nullField'' \<mapsto> VNil], Map.empty)"
    using reg_required required_nil
    by (simp add: validate_rule_def parse_required data_at_def)
  show ?thesis
    using flags by (simp add: validate_def validate_field_def conv r1 data_at_def)
qed

lemma nullable_continues_on_value:
  assumes reg_required: "validationRules reg ''required'' = Some required"
    and reg_numeric: "validationRules reg ''numeric'' = Some numeric"
    and required_test:
      "required ''nullField'' (VString ''test'') [] [''nullField'' \<mapsto> VString ''test'']
         = Inr (True, [''nullField'' \<mapsto> VString ''test''])"
    and numeric_test:
      "numeric ''nullField'' (VString ''test'') [] [''nullField'' \<mapsto> VString ''test'']
         = Inr (False, [''nullField'' \<mapsto> VString ''test''])"
  shows "validate ext reg (Some req) [''nullField'' \<mapsto> VString ''test'']
        [(''nullField'', [''required'', ''nullable'', ''numeric''])] language
       = Inr ([''nullField'' \<mapsto> VString ''test''],
              [''nullField'' \<mapsto>
                 [processPlaceholders ext ''nullField'' ''numeric'' []
                    (getMessage ext reg ''numeric'' (reflect_ValueOf (VString ''test'')) language False)
                    language]])"
proof -
  note flags = required_nullable_numeric_flags
  have conv: "\<And>j d. convertArray j ''nullField'' [''required'', ''nullable'', ''numeric''] d = Inr d"
    using flags by (simp add: convertArray_def Let_def)
  have r2: "validate_rule ext reg language ''nullField'' ''required'' [''nullField'' \<mapsto> VString ''test''] Map.empty
      = Inr ([''nullField'' \<mapsto> VString ''test''], Map.empty)"
    using reg_required required_test
    by (simp add: validate_rule_def parse_required data_at_def)
  have r3: "validate_rule ext reg language ''nullField'' ''numeric'' [''nullField'' \<mapsto> VString ''test''] Map.empty
      = Inr ([''nullField'' \<mapsto> VString ''test''],
             [''nullField'' \<mapsto>
                 [processPlaceholders ext ''nullField'' ''numeric'' []
                    (getMessage ext reg ''numeric'' (reflect_ValueOf (VString ''test'')) language False)
                    language]])"
    using reg_numeric numeric_test
    by (simp add: validate_rule_def parse_numeric data_at_def append_error_def)
  show ?thesis
    using flags by (simp add: validate_def validate_field_def conv r2 r3 data_at_def)
qed

lemma sample_init_required: "validationRules (init sample_ext) ''required'' = Some sample_required"
  by (simp add: init_has_required sample_ext_def)

lemma sample_init_numeric: "validationRules (init sample_ext) ''numeric'' = Some sample_numeric"
  by (simp add: init_has_numeric sample_ext_def)

lemma sample_init_min: "validationRules (init sample_ext) ''min'' = Some sample_min"
  by (simp add: init_has_min sample_ext_def)

lemma sample_required_nil:
  "sample_required ''nullField'' VNil [] [''nullField'' \<mapsto> VNil] = Inr (True, [''nullField'' \<mapsto> VNil])"
  by (simp add: sample_required_def)

text \<open>
  C1. In a registry where "required" passes on the present key (as the test of
  \<^verbatim>\<open>Validate\<close> observes) and "numeric" fails on the string "test": for the data
  \<^verbatim>\<open>{"nullField": nil}\<close> and the rules ["required", "nullable", "numeric"], validation
  keeps the key with the value nil and returns no error (the "nullable" token ends the
  rules of the field on the nil value); for the value "test" the key stays and the
  errors of the field are exactly one message, the one of "numeric".
\<close>

theorem validate_nullable_examples:
  assumes reg_required: "validationRules reg ''required'' = Some required"
    and reg_numeric: "validationRules reg ''numeric'' = Some numeric"
    and required_nil:
      "required ''nullField'' VNil [] [''nullField'' \<mapsto> VNil] = Inr (True, [''nullField'' \<mapsto> VNil])"
    and required_test:
      "required ''nullField'' (VString ''test'') [] [''nullField'' \<mapsto> VString ''test'']
         = Inr (True, [''nullField'' \<mapsto> VString ''test''])"
    and numeric_test:
      "numeric ''nullField'' (VString ''test'') [] [''nullField'' \<mapsto> VString ''test'']
         = Inr (False, [''nullField'' \<mapsto> VString ''test''])"
  shows
    "validate ext reg (Some req) [''nullField'' \<mapsto> VNil]
        [(''nullField'', [''required'', ''nullable'', ''numeric''])] language
       = Inr ([''nullField'' \<mapsto> VNil], Map.empty)
     \<and> validate ext reg (Some req) [''nullField'' \<mapsto> VString ''test'']
        [(''nullField'', [''required'', ''nullable'', ''numeric''])] language
       = Inr ([''nullField'' \<mapsto> VString ''test''],
              [''nullField'' \<mapsto>
                 [processPlaceholders ext ''nullField'' ''numeric'' []
                    (getMessage ext reg ''numeric'' (reflect_ValueOf (VString ''test'')) language False)
                    language]])"
  using nullable_stops_on_nil [OF reg_required required_nil]
        nullable_continues_on_value [OF reg_required reg_numeric required_test numeric_test]
  by blast

theorem validate_nullable_examples_witness:
  "validate sample_ext (init sample_ext) (Some \<lparr>Header = Map.empty\<rparr>) [''nullField'' \<mapsto> VNil]
        [(''nullField'', [''required'', ''nullable'', ''numeric''])] ''en-US''
       = Inr ([''nullField'' \<mapsto> VNil], Map.empty)
     \<and> validate sample_ext (init sample_ext) (Some \<lparr>Header = Map.empty\<rparr>) [''nullField'' \<mapsto> VString ''test'']
        [(''nullField'', [''required'', ''nullable'', ''numeric''])] ''en-US''
       = Inr ([''nullField'' \<mapsto> VString ''test''], [''nullField'' \<mapsto> [''validation.rules.numeric'']])"
proof -
  have h4: "sample_required ''nullField'' (VString ''test'') [] [''nullField'' \<mapsto> VString ''test'']
         = Inr (True, [''nullField'' \<mapsto> VString ''test''])"
    by (simp add: sample_required_def)
  have h5: "sample_numeric ''nullField'' (VString ''test'') [] [''nullField'' \<mapsto> VString ''test'']
         = Inr (False, [''nullField'' \<mapsto> VString ''test''])"
    by (simp add: sample_numeric_def GetFieldType_def getFieldType_def reflect_ValueOf_def Kind_def strings_HasPrefix_def)
  have msg: "processPlaceholders sample_ext ''nullField'' ''numeric'' []
                    (getMessage sample_ext (init sample_ext) ''numeric'' (reflect_ValueOf (VString ''test'')) ''en-US'' False)
                    ''en-US'' = ''validation.rules.numeric''"
    by (simp add: sample_ext_def getMessage_def getMessage_langEntry_def isTypeDependent_def init_def Let_def)
  show ?thesis
    using validate_nullable_examples [OF sample_init_required sample_init_numeric sample_required_nil h4 h5,
        of sample_ext "\<lparr>Header = Map.empty\<rparr>" "''en-US''"]
    by (simp only: msg)
qed

section \<open>Date validators: properties\<close>

text \<open>
  C6. For every reference instant: \<^verbatim>\<open>After(ref).Validate\<close> fails when the candidate is
  \<open>ref\<close> itself and passes exactly on the dates strictly after \<open>ref\<close>;
  \<^verbatim>\<open>AfterEqual(ref).Validate\<close> passes on \<open>ref\<close>; both return false, without a fatal
  failure, on every candidate that is not a date.
\<close>

theorem After_strict:
  "Validator_Validate (After ref) \<lparr>Value = VTime ref, Data = d\<rparr> = Inr False
   \<and> (Validator_Validate (After ref) ctx = Inr True \<longleftrightarrow> (\<exists>t. Value ctx = VTime t \<and> ref < t))
   \<and> Validator_Validate (AfterEqual ref) \<lparr>Value = VTime ref, Data = d\<rparr> = Inr True
   \<and> ((\<forall>t. v \<noteq> VTime t) \<longrightarrow>
        Validator_Validate (After ref) \<lparr>Value = v, Data = d\<rparr> = Inr False
        \<and> Validator_Validate (AfterEqual ref) \<lparr>Value = v, Data = d\<rparr> = Inr False)"
  by (cases "Value ctx"; cases v) (simp_all add: After_def AfterEqual_def compare_dates_def)

theorem After_strict_witness:
  "list_all (\<lambda>v. Validator_Validate (After 1678874862) \<lparr>Value = v, Data = []\<rparr> = Inr False
        \<and> Validator_Validate (AfterEqual 1678874862) \<lparr>Value = v, Data = []\<rparr> = Inr False)
     [VString ''string'', VInt32 97, VInt 2, VFloat64 0x4004000000000000,
      VSlice TString [VString ''string''], VBool True, VNil]"
  using After_strict [of 1678874862 "[]" _ "VString ''string''"]
        After_strict [of 1678874862 "[]" _ "VInt32 97"]
        After_strict [of 1678874862 "[]" _ "VInt 2"]
        After_strict [of 1678874862 "[]" _ "VFloat64 0x4004000000000000"]
        After_strict [of 1678874862 "[]" _ "VSlice TString [VString ''string'']"]
        After_strict [of 1678874862 "[]" _ "VBool True"]
        After_strict [of 1678874862 "[]" _ "VNil"]
  by simp

lemma parse_object_field_each:
  "parse_path ''object.field[]'' = Inr [Segment ''object'' False, Segment ''field'' True]"
  by (simp add: parse_path_def parse_segment_def Let_def)

lemma resolve_two:
  "resolve [Segment ''object'' False, Segment ''field'' True] (VMap (makeAfterFieldData refs))
     = Inr (map VTime refs)"
proof -
  have "collect (map (resolve []) xs) = Inr xs" for xs
    by (induction xs) simp_all
  then show ?thesis by (simp add: makeAfterFieldData_def)
qed

text \<open>
  C7. \<^verbatim>\<open>AfterField("object.field[]")\<close> holds the parsed path only. Validated against a
  data tree whose path resolves to two instants \<open>t1 < t2\<close>, it compares the candidate
  with both: a candidate after \<open>t2\<close> passes, a candidate after \<open>t1\<close> and not after \<open>t2\<close>
  fails. The reference is read from the data tree of the context at validation: the
  same validator passes that candidate against the tree holding \<open>t1\<close> alone.
\<close>

theorem AfterField_wildcard:
  assumes "t1 < t2"
  shows "AfterField ''object.field[]'' = Inr (AfterFieldValidator [Segment ''object'' False, Segment ''field'' True])
    \<and> (AfterField ''object.field[]'' = Inr v \<longrightarrow>
         (t2 < c \<longrightarrow> Validator_Validate v \<lparr>Value = VTime c, Data = makeAfterFieldData [t1, t2]\<rparr> = Inr True)
       \<and> (t1 < c \<and> c \<le> t2 \<longrightarrow>
             Validator_Validate v \<lparr>Value = VTime c, Data = makeAfterFieldData [t1, t2]\<rparr> = Inr False
           \<and> Validator_Validate v \<lparr>Value = VTime c, Data = makeAfterFieldData [t1]\<rparr> = Inr True))"
  using assms
  by (auto simp: AfterField_def parse_object_field_each compare_with_field_def resolve_two
      compare_dates_def simp del: resolve.simps)

theorem AfterField_wildcard_witness:
  "Validator_Validate (AfterFieldValidator [Segment ''object'' False, Segment ''field'' True])
      \<lparr>Value = VTime 1678964802, Data = makeAfterFieldData [1678874862, 1678961262]\<rparr> = Inr True
   \<and> Validator_Validate (AfterFieldValidator [Segment ''object'' False, Segment ''field'' True])
      \<lparr>Value = VTime 1678961202, Data = makeAfterFieldData [1678874862, 1678961262]\<rparr> = Inr False
   \<and> Validator_Validate (AfterFieldValidator [Segment ''object'' False, Segment ''field'' True])
      \<lparr>Value = VTime 1678961202, Data = makeAfterFieldData [1678874862]\<rparr> = Inr True"
proof -
  have lt: "(1678874862::int) < 1678961262" by simp
  show ?thesis
    using AfterField_wildcard [OF lt, of "AfterFieldValidator [Segment ''object'' False, Segment ''field'' True]" 1678964802]
          AfterField_wildcard [OF lt, of "AfterFieldValidator [Segment ''object'' False, Segment ''field'' True]" 1678961202]
    by simp
qed


section \<open>Per-element rules\<close>

lemma Type_String_File: "Type_String t = ''filesystem.File'' \<longleftrightarrow> t = TFile"
  by (cases t) simp_all

lemma GetFieldType_slice:
  "GetFieldType (VSlice et xs) = (if et = TFile then ''file'' else ''array'')"
  by (simp add: GetFieldType_def getFieldType_def reflect_ValueOf_def Kind_def
      strings_HasPrefix_def Type_String_File)

lemma GetFieldType_array_iff:
  "GetFieldType v = ''array'' \<longleftrightarrow> (\<exists>et xs. v = VSlice et xs \<and> et \<noteq> TFile)"
  by (cases v)
     (simp_all add: GetFieldType_slice,
      simp_all add: GetFieldType_def getFieldType_def reflect_ValueOf_def Kind_def strings_HasPrefix_def)

lemma validateElements_stops:
  "validateElements (Some r) f ps et pre = Inr (None, pre') \<Longrightarrow>
   r f x ps [f \<mapsto> x] = Inr (False, tmp) \<Longrightarrow>
   validateElements (Some r) f ps et (pre @ x # post) = Inr (Some (ReflectValue (Some et) x), pre' @ x # post)"
proof (induction pre arbitrary: pre')
  case Nil
  have "pre' = []" using Nil.prems(1) by simp
  then show ?case by (simp add: Nil.prems(2))
next
  case (Cons p pre)
  from Cons.prems(1) obtain tmpData v' rest'
    where p_ok: "r f p ps [f \<mapsto> p] = Inr (True, tmpData)"
      and set_ok: "reflect_Set et (data_at tmpData f) = Inr v'"
      and rest: "validateElements (Some r) f ps et pre = Inr (None, rest')"
      and pre': "pre' = v' # rest'"
    by (auto split: sum.splits prod.splits if_splits)
  have "validateElements (Some r) f ps et (pre @ x # post)
          = Inr (Some (ReflectValue (Some et) x), rest' @ x # post)"
    using Cons.IH [OF rest Cons.prems(2)] .
  then show ?case by (simp add: p_ok set_ok pre')
qed

lemma validateRuleInArray_not_array:
  "GetFieldType (data_at data f) \<noteq> ''array'' \<Longrightarrow>
   validateRuleInArray reg rn f data ps =
     Inl (Panic (''Cannot validate array values on non-array field '' @ f
                   @ '' of type '' @ GetFieldType (data_at data f)))"
  by (simp add: validateRuleInArray_def Let_def)

lemma validateRuleInArray_slice:
  "data f = Some (VSlice et xs) \<Longrightarrow> et \<noteq> TFile \<Longrightarrow>
   validateRuleInArray reg rn f data ps =
     (case validateElements (validationRules reg rn) f ps et xs of
        Inl e \<Rightarrow> Inl e
      | Inr (errorValue, xs') \<Rightarrow> Inr (errorValue, data(f \<mapsto> VSlice et xs')))"
  by (simp add: validateRuleInArray_def Let_def data_at_def GetFieldType_slice)

lemma validate_rule_each:
  "parseRule reg rule = Inr (rn, True, ps) \<Longrightarrow>
   validate_rule ext reg language f rule data errors =
     (case validateRuleInArray reg rn f data ps of
        Inl e \<Rightarrow> Inl e
      | Inr (errorValue, data') \<Rightarrow>
          (case errorValue of
             Some ev \<Rightarrow> Inr (data', append_error errors f
                (processPlaceholders ext f rn ps (getMessage ext reg rn ev language True) language))
           | None \<Rightarrow> Inr (data', errors)))"
  by (simp add: validate_rule_def)

lemma parseRule_same_names:
  "(\<And>k. (validationRules reg' k = None) = (validationRules reg k = None)) \<Longrightarrow>
   parseRule reg' rule = parseRule reg rule"
  by (simp add: parseRule_def Let_def)

lemma validateElements_agree:
  "list_all (\<lambda>x. r1 f x ps [f \<mapsto> x] = r2 f x ps [f \<mapsto> x]) xs \<Longrightarrow>
   validateElements (Some r1) f ps et xs = validateElements (Some r2) f ps et xs"
  by (induction xs) (simp_all split: sum.splits prod.splits)

lemma scalar_rule_arguments:
  assumes parse: "parseRule reg rule = Inr (ruleName, False, params)"
    and r1: "validationRules reg ruleName = Some r1"
    and agree: "r1 f (data_at data f) params data = r2 f (data_at data f) params data"
  shows "validate_rule ext (reg\<lparr>validationRules := (validationRules reg)(ruleName \<mapsto> r2)\<rparr>)
            language f rule data errors
         = validate_rule ext reg language f rule data errors"
proof -
  let ?reg' = "reg\<lparr>validationRules := (validationRules reg)(ruleName \<mapsto> r2)\<rparr>"
  have "parseRule ?reg' rule = parseRule reg rule"
    by (rule parseRule_same_names) (simp add: r1)
  then have p': "parseRule ?reg' rule = Inr (ruleName, False, params)" using parse by simp
  have msg: "getMessage ext ?reg' ruleName v language b = getMessage ext reg ruleName v language b" for v b
    by (simp add: getMessage_def getMessage_langEntry_def isTypeDependent_def)
  show ?thesis
    by (simp add: validate_rule_def parse p' r1 agree [symmetric] msg split: sum.splits prod.splits)
qed

lemma element_rule_arguments:
  assumes parse: "parseRule reg rule = Inr (ruleName, True, params)"
    and r1: "validationRules reg ruleName = Some r1"
    and slice: "data f = Some (VSlice et xs)"
    and agree: "list_all (\<lambda>x. r1 f x params [f \<mapsto> x] = r2 f x params [f \<mapsto> x]) xs"
  shows "validate_rule ext (reg\<lparr>validationRules := (validationRules reg)(ruleName \<mapsto> r2)\<rparr>)
            language f rule data errors
         = validate_rule ext reg language f rule data errors"
proof -
  let ?reg' = "reg\<lparr>validationRules := (validationRules reg)(ruleName \<mapsto> r2)\<rparr>"
  have "parseRule ?reg' rule = parseRule reg rule"
    by (rule parseRule_same_names) (simp add: r1)
  then have p': "parseRule ?reg' rule = Inr (ruleName, True, params)" using parse by simp
  have msg: "getMessage ext ?reg' ruleName v language b = getMessage ext reg ruleName v language b" for v b
    by (simp add: getMessage_def getMessage_langEntry_def isTypeDependent_def)
  have at: "data_at data f = VSlice et xs" using slice by (simp add: data_at_def)
  have els: "validateElements (Some r1) f params et xs = validateElements (Some r2) f params et xs"
    using agree by (rule validateElements_agree)
  have arr: "validateRuleInArray ?reg' ruleName f data params = validateRuleInArray reg ruleName f data params"
    by (simp add: validateRuleInArray_def at r1 els Let_def)
  show ?thesis
    by (simp add: validate_rule_each [OF parse] validate_rule_each [OF p'] arr msg
        split: sum.splits prod.splits option.splits)
qed

lemma validateElements_at:
  "validateElements (Some r) f ps et pre = Inr (None, pre') \<Longrightarrow>
   validateElements (Some r) f ps et (pre @ x # post) =
     (case r f x ps [f \<mapsto> x] of
        Inl e \<Rightarrow> Inl e
      | Inr (ok, tmpData) \<Rightarrow>
          if \<not> ok then Inr (Some (ReflectValue (Some et) x), pre' @ x # post)
          else
            (case reflect_Set et (data_at tmpData f) of
               Inl e \<Rightarrow> Inl e
             | Inr x' \<Rightarrow>
                 (case validateElements (Some r) f ps et post of
                    Inl e \<Rightarrow> Inl e
                  | Inr (errorValue, post') \<Rightarrow> Inr (errorValue, pre' @ x' # post'))))"
proof (induction pre arbitrary: pre')
  case Nil
  then have "pre' = []" by simp
  then show ?case by (simp only: append_Nil validateElements.simps option.case)
next
  case (Cons p pre)
  from Cons.prems obtain tmpData v' rest'
    where p_ok: "r f p ps [f \<mapsto> p] = Inr (True, tmpData)"
      and set_ok: "reflect_Set et (data_at tmpData f) = Inr v'"
      and rest: "validateElements (Some r) f ps et pre = Inr (None, rest')"
      and pre': "pre' = v' # rest'"
    by (auto split: sum.splits prod.splits if_splits)
  show ?case
    by (simp add: p_ok set_ok pre' Cons.IH [OF rest] split: sum.splits prod.splits)
qed

lemma validateRuleInArray_at:
  assumes slice: "data f = Some (VSlice et (pre @ x # post))" and et: "et \<noteq> TFile"
    and r: "validationRules reg ruleName = Some r"
    and pre: "validateElements (Some r) f params et pre = Inr (None, pre')"
  shows "validateRuleInArray reg ruleName f data params =
     (case r f x params [f \<mapsto> x] of
        Inl e \<Rightarrow> Inl e
      | Inr (ok, tmpData) \<Rightarrow>
          if \<not> ok
          then Inr (Some (ReflectValue (Some et) x), data(f \<mapsto> VSlice et (pre' @ x # post)))
          else
            (case reflect_Set et (data_at tmpData f) of
               Inl e \<Rightarrow> Inl e
             | Inr x' \<Rightarrow>
                 (case validateElements (Some r) f params et post of
                    Inl e \<Rightarrow> Inl e
                  | Inr (errorValue, post') \<Rightarrow>
                      Inr (errorValue, data(f \<mapsto> VSlice et (pre' @ x' # post'))))))"
  by (simp add: validateRuleInArray_slice [where data = data and f = f, OF slice et] r
      validateElements_at [OF pre] split: sum.splits prod.splits)

lemma validate_rule_scalar:
  assumes "parseRule reg rule = Inr (ruleName, False, params)"
    and "validationRules reg ruleName = Some r"
  shows "validate_rule ext reg language f rule data errors =
     (case r f (data_at data f) params data of
        Inl e \<Rightarrow> Inl e
      | Inr (ok, data') \<Rightarrow>
          if \<not> ok then
            Inr (data', append_error errors f
              (processPlaceholders ext f ruleName params
                 (getMessage ext reg ruleName (reflect_ValueOf (data_at data' f)) language False)
                 language))
          else Inr (data', errors))"
  using assms by (simp add: validate_rule_def)

text \<open>
  C9, as the code has it. A rule that is not per-element is called on the field name,
  the value of the field, the parameters and the full data map: the step is the
  rule's result at these arguments (its panic, or the map it returns, with one message
  added when it fails). A per-element rule is called, for each element the loop
  reaches, on the field name, the element, the parameters and a fresh map holding
  the element under the field name, neither the full data map nor an index: the loop
  at that element is the rule's result at these arguments (its panic, the element as
  the failing one, or the value of the fresh map written back). In both cases the
  outcome depends on the rule through its results at these arguments only.
\<close>

theorem rule_call_arguments:
  "(parseRule reg rule = Inr (ruleName, False, params) \<and> validationRules reg ruleName = Some r1
    \<longrightarrow> validate_rule ext reg language f rule data errors =
         (case r1 f (data_at data f) params data of
            Inl e \<Rightarrow> Inl e
          | Inr (ok, data') \<Rightarrow>
              if \<not> ok then
                Inr (data', append_error errors f
                  (processPlaceholders ext f ruleName params
                     (getMessage ext reg ruleName (reflect_ValueOf (data_at data' f)) language False)
                     language))
              else Inr (data', errors)))
   \<and> (data f = Some (VSlice et (pre @ x # post)) \<and> et \<noteq> TFile
      \<and> validationRules reg ruleName = Some r1
      \<and> validateElements (Some r1) f params et pre = Inr (None, pre')
    \<longrightarrow> validateRuleInArray reg ruleName f data params =
         (case r1 f x params [f \<mapsto> x] of
            Inl e \<Rightarrow> Inl e
          | Inr (ok, tmpData) \<Rightarrow>
              if \<not> ok
              then Inr (Some (ReflectValue (Some et) x), data(f \<mapsto> VSlice et (pre' @ x # post)))
              else
                (case reflect_Set et (data_at tmpData f) of
                   Inl e \<Rightarrow> Inl e
                 | Inr x' \<Rightarrow>
                     (case validateElements (Some r1) f params et post of
                        Inl e \<Rightarrow> Inl e
                      | Inr (errorValue, post') \<Rightarrow>
                          Inr (errorValue, data(f \<mapsto> VSlice et (pre' @ x' # post')))))))
   \<and> (parseRule reg rule = Inr (ruleName, False, params) \<and> validationRules reg ruleName = Some r1
      \<and> r1 f (data_at data f) params data = r2 f (data_at data f) params data
    \<longrightarrow> validate_rule ext (reg\<lparr>validationRules := (validationRules reg)(ruleName \<mapsto> r2)\<rparr>)
            language f rule data errors
         = validate_rule ext reg language f rule data errors)
   \<and> (parseRule reg rule = Inr (ruleName, True, params) \<and> validationRules reg ruleName = Some r1
      \<and> data f = Some (VSlice et xs)
      \<and> list_all (\<lambda>x. r1 f x params [f \<mapsto> x] = r2 f x params [f \<mapsto> x]) xs
    \<longrightarrow> validate_rule ext (reg\<lparr>validationRules := (validationRules reg)(ruleName \<mapsto> r2)\<rparr>)
            language f rule data errors
         = validate_rule ext reg language f rule data errors)"
proof (intro conjI impI)
  assume "parseRule reg rule = Inr (ruleName, False, params) \<and> validationRules reg ruleName = Some r1"
  then show "validate_rule ext reg language f rule data errors =
         (case r1 f (data_at data f) params data of
            Inl e \<Rightarrow> Inl e
          | Inr (ok, data') \<Rightarrow>
              if \<not> ok then
                Inr (data', append_error errors f
                  (processPlaceholders ext f ruleName params
                     (getMessage ext reg ruleName (reflect_ValueOf (data_at data' f)) language False)
                     language))
              else Inr (data', errors))"
    by (elim conjE) (rule validate_rule_scalar; assumption)
next
  assume h: "data f = Some (VSlice et (pre @ x # post)) \<and> et \<noteq> TFile
      \<and> validationRules reg ruleName = Some r1
      \<and> validateElements (Some r1) f params et pre = Inr (None, pre')"
  from h have h1: "data f = Some (VSlice et (pre @ x # post))" and h2: "et \<noteq> TFile"
    and h3: "validationRules reg ruleName = Some r1"
    and h4: "validateElements (Some r1) f params et pre = Inr (None, pre')"
    by blast+
  show "validateRuleInArray reg ruleName f data params =
         (case r1 f x params [f \<mapsto> x] of
            Inl e \<Rightarrow> Inl e
          | Inr (ok, tmpData) \<Rightarrow>
              if \<not> ok
              then Inr (Some (ReflectValue (Some et) x), data(f \<mapsto> VSlice et (pre' @ x # post)))
              else
                (case reflect_Set et (data_at tmpData f) of
                   Inl e \<Rightarrow> Inl e
                 | Inr x' \<Rightarrow>
                     (case validateElements (Some r1) f params et post of
                        Inl e \<Rightarrow> Inl e
                      | Inr (errorValue, post') \<Rightarrow>
                          Inr (errorValue, data(f \<mapsto> VSlice et (pre' @ x' # post'))))))"
    using h1 h2 h3 h4 by (rule validateRuleInArray_at)
next
  assume "parseRule reg rule = Inr (ruleName, False, params) \<and> validationRules reg ruleName = Some r1
      \<and> r1 f (data_at data f) params data = r2 f (data_at data f) params data"
  then show "validate_rule ext (reg\<lparr>validationRules := (validationRules reg)(ruleName \<mapsto> r2)\<rparr>)
            language f rule data errors
         = validate_rule ext reg language f rule data errors"
    by (elim conjE) (rule scalar_rule_arguments; assumption)
next
  assume "parseRule reg rule = Inr (ruleName, True, params) \<and> validationRules reg ruleName = Some r1
      \<and> data f = Some (VSlice et xs)
      \<and> list_all (\<lambda>x. r1 f x params [f \<mapsto> x] = r2 f x params [f \<mapsto> x]) xs"
  then show "validate_rule ext (reg\<lparr>validationRules := (validationRules reg)(ruleName \<mapsto> r2)\<rparr>)
            language f rule data errors
         = validate_rule ext reg language f rule data errors"
    by (elim conjE) (rule element_rule_arguments; assumption)
qed


theorem rule_call_arguments_witness:
  "validate_rule sample_ext other_registry ''en-US'' ''list'' ''sees_other'' other_data Map.empty
     = Inr (other_data, Map.empty)
   \<and> validateRuleInArray other_registry ''sees_other'' ''list'' other_data []
     = Inr (Some (ReflectValue (Some TString) (VString ''a'')), other_data)
   \<and> validate_rule sample_ext (other_registry\<lparr>validationRules := (validationRules other_registry)(''sees_other'' \<mapsto> always True)\<rparr>)
       ''en-US'' ''list'' ''sees_other'' other_data Map.empty
     = validate_rule sample_ext other_registry ''en-US'' ''list'' ''sees_other'' other_data Map.empty
   \<and> validate_rule sample_ext (other_registry\<lparr>validationRules := (validationRules other_registry)(''sees_other'' \<mapsto> always False)\<rparr>)
       ''en-US'' ''list'' ''>sees_other'' other_data Map.empty
     = validate_rule sample_ext other_registry ''en-US'' ''list'' ''>sees_other'' other_data Map.empty"
proof -
  have reg: "validationRules other_registry ''sees_other'' = Some sees_other"
    by (simp add: other_registry_def)
  have p1: "parseRule other_registry ''sees_other'' = Inr (''sees_other'', False, [])"
    using reg by (simp add: parseRule_def strings_Count_def Let_def)
  have p2: "parseRule other_registry ''>sees_other'' = Inr (''sees_other'', True, [])"
    using reg by (simp add: parseRule_def strings_Count_def Let_def)
  have d: "other_data ''list'' = Some (VSlice TString [VString ''a''])"
    by (simp add: other_data_def)
  have d': "other_data ''list'' = Some (VSlice TString ([] @ VString ''a'' # []))"
    using d by simp
  have upd: "other_data(''list'' \<mapsto> VSlice TString [VString ''a'']) = other_data"
    using d by (rule map_upd_triv)
  have full: "sees_other ''list'' (data_at other_data ''list'') [] other_data = Inr (True, other_data)"
    by (simp add: sees_other_def other_data_def)
  have single: "sees_other ''list'' (VString ''a'') [] [''list'' \<mapsto> VString ''a'']
      = Inr (False, [''list'' \<mapsto> VString ''a''])"
    by (simp add: sees_other_def)
  have pre: "validateElements (Some sees_other) ''list'' [] TString [] = Inr (None, [])"
    by simp
  have a1: "sees_other ''list'' (data_at other_data ''list'') [] other_data
      = always True ''list'' (data_at other_data ''list'') [] other_data"
    by (simp add: full always_def)
  have a2: "list_all (\<lambda>x. sees_other ''list'' x [] [''list'' \<mapsto> x] = always False ''list'' x [] [''list'' \<mapsto> x])
      [VString ''a'']"
    by (simp add: sees_other_def always_def)
  note T1 = rule_call_arguments [where reg = other_registry and rule = "''sees_other''"
      and ruleName = "''sees_other''" and params = "[]" and ?r1.0 = sees_other and ?r2.0 = "always True"
      and f = "''list''" and data = other_data and ext = sample_ext and language = "''en-US''"
      and errors = Map.empty and et = TString and pre = "[]" and pre' = "[]"
      and x = "VString ''a''" and post = "[]"]
  note T2 = rule_call_arguments [where reg = other_registry and rule = "''>sees_other''"
      and ruleName = "''sees_other''" and params = "[]" and ?r1.0 = sees_other and ?r2.0 = "always False"
      and f = "''list''" and data = other_data and ext = sample_ext and language = "''en-US''"
      and errors = Map.empty and et = TString and xs = "[VString ''a'']"]
  have w1: "validate_rule sample_ext other_registry ''en-US'' ''list'' ''sees_other'' other_data Map.empty
     = Inr (other_data, Map.empty)"
    using T1 p1 reg by (simp add: full)
  have w2: "validateRuleInArray other_registry ''sees_other'' ''list'' other_data []
     = Inr (Some (ReflectValue (Some TString) (VString ''a'')), other_data)"
    using T1 d' reg pre by (simp add: single upd)
  have w3: "validate_rule sample_ext (other_registry\<lparr>validationRules := (validationRules other_registry)(''sees_other'' \<mapsto> always True)\<rparr>)
       ''en-US'' ''list'' ''sees_other'' other_data Map.empty
     = validate_rule sample_ext other_registry ''en-US'' ''list'' ''sees_other'' other_data Map.empty"
    using T1 p1 reg a1 by blast
  have w4: "validate_rule sample_ext (other_registry\<lparr>validationRules := (validationRules other_registry)(''sees_other'' \<mapsto> always False)\<rparr>)
       ''en-US'' ''list'' ''>sees_other'' other_data Map.empty
     = validate_rule sample_ext other_registry ''en-US'' ''list'' ''>sees_other'' other_data Map.empty"
    using T2 p2 reg d a2 by blast
  from w1 w2 w3 w4 show ?thesis by blast
qed

text \<open>
  C9, as the claim states it, fails for per-element checks: \<open>sees_other\<close> passes on the
  full data map (which holds "other"), yet the per-element check of the list reports
  its element as failing, since the rule was given the one-entry map.
\<close>

theorem element_context_counterexample:
  "sees_other ''list'' (VString ''a'') [] other_data = Inr (True, other_data)
   \<and> validateRuleInArray other_registry ''sees_other'' ''list'' other_data []
       = Inr (Some (ReflectValue (Some TString) (VString ''a'')), other_data)"
proof -
  have a: "sees_other ''list'' (VString ''a'') [] other_data = Inr (True, other_data)"
    by (simp add: sees_other_def other_data_def)
  have d: "other_data ''list'' = Some (VSlice TString [VString ''a''])"
    by (simp add: other_data_def)
  have upd: "other_data(''list'' \<mapsto> VSlice TString [VString ''a'']) = other_data"
    using d by (rule map_upd_triv)
  have b: "validateRuleInArray other_registry ''sees_other'' ''list'' other_data []
       = Inr (Some (ReflectValue (Some TString) (VString ''a'')), other_data)"
    by (simp add: validateRuleInArray_slice [where data = other_data and f = "''list''", OF d]
          other_registry_def sees_other_def upd)
  from a b show ?thesis by blast
qed


lemma validate_field_each_min_3:
  assumes notnil: "data_at data f \<noteq> VNil"
    and present: "validateRequired ext f (data_at data f) [] data = Inr (True, data)"
  shows "validate_field ext reg isJSON language f [''>min:3''] data errors =
          validate_rule ext reg language f ''>min:3'' data errors"
proof -
  have flags: "\<not> isNullable [''>min:3'']" "\<not> isRequired [''>min:3'']" "\<not> isArray [''>min:3'']"
    by (simp_all add: isNullable_def isRequired_def isArray_def)
  have conv: "convertArray isJSON f [''>min:3''] data = Inr data"
    using flags by (simp add: convertArray_def Let_def)
  show ?thesis
    using flags notnil
    by (simp add: validate_field_def present conv split: sum.splits)
qed

lemma per_element_not_array:
  assumes "parseRule reg rule = Inr (ruleName, True, params)"
    and "GetFieldType (data_at data fieldName) \<noteq> ''array''"
  shows "validate_rule ext reg language fieldName rule data errors =
      Inl (Panic (''Cannot validate array values on non-array field '' @ fieldName
                   @ '' of type '' @ GetFieldType (data_at data fieldName)))"
  using assms by (simp add: validate_rule_each validateRuleInArray_not_array)

lemma per_element_first_failure:
  assumes "parseRule reg rule = Inr (ruleName, True, params)"
    and "data fieldName = Some (VSlice et (pre @ x # post))" and "et \<noteq> TFile"
    and "validationRules reg ruleName = Some r"
    and "validateElements (Some r) fieldName params et pre = Inr (None, pre')"
    and "r fieldName x params [fieldName \<mapsto> x] = Inr (False, tmp)"
  shows "validate_rule ext reg language fieldName rule data errors =
      Inr (data(fieldName \<mapsto> VSlice et (pre' @ x # post)),
           append_error errors fieldName
             (processPlaceholders ext fieldName ruleName params
                (getMessage ext reg ruleName (ReflectValue (Some et) x) language True) language))"
proof -
  have "validateElements (validationRules reg ruleName) fieldName params et (pre @ x # post)
      = Inr (Some (ReflectValue (Some et) x), pre' @ x # post)"
    using assms(4) validateElements_stops [OF assms(5) assms(6)] by simp
  then show ?thesis
    by (simp add: validate_rule_each [OF assms(1)] validateRuleInArray_slice [where data = data and f = fieldName, OF assms(2) assms(3)])
qed

lemma per_element_all_pass:
  assumes "parseRule reg rule = Inr (ruleName, True, params)"
    and "data fieldName = Some (VSlice et xs)" and "et \<noteq> TFile"
    and "validateElements (validationRules reg ruleName) fieldName params et xs = Inr (None, xs')"
  shows "validate_rule ext reg language fieldName rule data errors =
      Inr (data(fieldName \<mapsto> VSlice et xs'), errors)"
  using assms(4)
  by (simp add: validate_rule_each [OF assms(1)] validateRuleInArray_slice [where data = data and f = fieldName, OF assms(2) assms(3)])

lemma reflect_Set_same: "reflect_TypeOf v = Some et \<Longrightarrow> reflect_Set et v = Inr v"
  by (simp add: reflect_Set_def)

lemma hello_world_passes:
  assumes reg_min: "validationRules reg ''min'' = Some min_rule"
    and present: "validateRequired ext ''string'' (VSlice TString [VString ''hello'', VString ''world'']) []
             [''string'' \<mapsto> VSlice TString [VString ''hello'', VString ''world'']]
           = Inr (True, [''string'' \<mapsto> VSlice TString [VString ''hello'', VString ''world'']])"
    and hello: "min_rule ''string'' (VString ''hello'') [''3''] [''string'' \<mapsto> VString ''hello'']
           = Inr (True, [''string'' \<mapsto> VString ''hello''])"
    and world: "min_rule ''string'' (VString ''world'') [''3''] [''string'' \<mapsto> VString ''world'']
           = Inr (True, [''string'' \<mapsto> VString ''world''])"
  shows "validate ext reg (Some req) [''string'' \<mapsto> VSlice TString [VString ''hello'', VString ''world'']]
            [(''string'', [''>min:3''])] language
         = Inr ([''string'' \<mapsto> VSlice TString [VString ''hello'', VString ''world'']], Map.empty)"
proof -
  let ?d = "[''string'' \<mapsto> VSlice TString [VString ''hello'', VString ''world'']]"
  have at: "data_at ?d ''string'' = VSlice TString [VString ''hello'', VString ''world'']"
    by (simp add: data_at_def)
  have els: "validateElements (validationRules reg ''min'') ''string'' [''3''] TString
               [VString ''hello'', VString ''world'']
             = Inr (None, [VString ''hello'', VString ''world''])"
    by (simp add: reg_min hello world data_at_def reflect_Set_same)
  have step: "validate_rule ext reg language ''string'' ''>min:3'' ?d Map.empty = Inr (?d, Map.empty)"
    using per_element_all_pass [where data = ?d and fieldName = "''string''" and errors = Map.empty
        and ext = ext and language = language, OF parse_each_min_3 [OF reg_min] _ _ els]
    by simp
  have "validate_field ext reg isJSON language ''string'' [''>min:3''] ?d Map.empty
          = validate_rule ext reg language ''string'' ''>min:3'' ?d Map.empty" for isJSON
    by (rule validate_field_each_min_3) (simp_all add: at present)
  then show ?thesis by (simp add: validate_single_field step)
qed

lemma hi_there_fails_once:
  assumes reg_min: "validationRules reg ''min'' = Some min_rule"
    and present: "validateRequired ext ''string''
             (VSlice TString [VString ''hi'', VString '','', VString ''there'']) []
             [''string'' \<mapsto> VSlice TString [VString ''hi'', VString '','', VString ''there'']]
           = Inr (True, [''string'' \<mapsto> VSlice TString [VString ''hi'', VString '','', VString ''there'']])"
    and hi: "min_rule ''string'' (VString ''hi'') [''3''] [''string'' \<mapsto> VString ''hi'']
           = Inr (False, tmp)"
  shows "validate ext reg (Some req)
            [''string'' \<mapsto> VSlice TString [VString ''hi'', VString '','', VString ''there'']]
            [(''string'', [''>min:3''])] language
         = Inr ([''string'' \<mapsto> VSlice TString [VString ''hi'', VString '','', VString ''there'']],
                [''string'' \<mapsto>
                   [processPlaceholders ext ''string'' ''min'' [''3'']
                      (getMessage ext reg ''min'' (ReflectValue (Some TString) (VString ''hi'')) language True)
                      language]])"
proof -
  let ?d = "[''string'' \<mapsto> VSlice TString [VString ''hi'', VString '','', VString ''there'']]"
  have at: "data_at ?d ''string'' = VSlice TString [VString ''hi'', VString '','', VString ''there'']"
    by (simp add: data_at_def)
  have pre: "validateElements (Some min_rule) ''string'' [''3''] TString [] = Inr (None, [])"
    by simp
  have step: "validate_rule ext reg language ''string'' ''>min:3'' ?d Map.empty
      = Inr (?d, [''string'' \<mapsto>
                   [processPlaceholders ext ''string'' ''min'' [''3'']
                      (getMessage ext reg ''min'' (ReflectValue (Some TString) (VString ''hi'')) language True)
                      language]])"
    using per_element_first_failure [where data = ?d and fieldName = "''string''"
        and errors = Map.empty and ext = ext and language = language and et = TString
        and post = "[VString '','', VString ''there'']",
        OF parse_each_min_3 [OF reg_min] _ _ reg_min pre hi]
    by (simp add: append_error_def)
  have "validate_field ext reg isJSON language ''string'' [''>min:3''] ?d Map.empty
          = validate_rule ext reg language ''string'' ''>min:3'' ?d Map.empty" for isJSON
    by (rule validate_field_each_min_3) (simp_all add: at present)
  then show ?thesis by (simp add: validate_single_field step)
qed


text \<open>
  C2. For a token that parses as per-element: when the field is not of type "array"
  the step panics; when the field is a slice in which the elements of \<open>pre\<close> pass and
  the next element \<open>x\<close> fails, the loop returns at \<open>x\<close> whatever follows it, and the step
  appends exactly one message to the errors of the field; when no element fails the
  errors are unchanged. With a "min" rule that passes on "hello" and "world" and
  fails on "hi" (the rule bodies are parameters), validating ["hello", "world"] under
  ">min:3" returns no error, and ["hi", ",", "there"] returns exactly one message.
\<close>

theorem per_element_rule:
  "(parseRule reg rule = Inr (ruleName, True, params) \<longrightarrow>
      (GetFieldType (data_at data fieldName) \<noteq> ''array'' \<longrightarrow>
         validate_rule ext reg language fieldName rule data errors =
           Inl (Panic (''Cannot validate array values on non-array field '' @ fieldName
                   @ '' of type '' @ GetFieldType (data_at data fieldName))))
    \<and> (data fieldName = Some (VSlice et (pre @ x # post)) \<and> et \<noteq> TFile
        \<and> validationRules reg ruleName = Some r
        \<and> validateElements (Some r) fieldName params et pre = Inr (None, pre')
        \<and> r fieldName x params [fieldName \<mapsto> x] = Inr (False, tmp) \<longrightarrow>
         validate_rule ext reg language fieldName rule data errors =
           Inr (data(fieldName \<mapsto> VSlice et (pre' @ x # post)),
                append_error errors fieldName
                  (processPlaceholders ext fieldName ruleName params
                     (getMessage ext reg ruleName (ReflectValue (Some et) x) language True) language)))
    \<and> (data fieldName = Some (VSlice et xs) \<and> et \<noteq> TFile
        \<and> validateElements (validationRules reg ruleName) fieldName params et xs = Inr (None, xs') \<longrightarrow>
         validate_rule ext reg language fieldName rule data errors =
           Inr (data(fieldName \<mapsto> VSlice et xs'), errors)))
   \<and> (validationRules reg ''min'' = Some min_rule
      \<and> validateRequired ext ''string'' (VSlice TString [VString ''hello'', VString ''world'']) []
             [''string'' \<mapsto> VSlice TString [VString ''hello'', VString ''world'']]
           = Inr (True, [''string'' \<mapsto> VSlice TString [VString ''hello'', VString ''world'']])
      \<and> min_rule ''string'' (VString ''hello'') [''3''] [''string'' \<mapsto> VString ''hello'']
           = Inr (True, [''string'' \<mapsto> VString ''hello''])
      \<and> min_rule ''string'' (VString ''world'') [''3''] [''string'' \<mapsto> VString ''world'']
           = Inr (True, [''string'' \<mapsto> VString ''world'']) \<longrightarrow>
       validate ext reg (Some req) [''string'' \<mapsto> VSlice TString [VString ''hello'', VString ''world'']]
            [(''string'', [''>min:3''])] language
         = Inr ([''string'' \<mapsto> VSlice TString [VString ''hello'', VString ''world'']], Map.empty))
   \<and> (validationRules reg ''min'' = Some min_rule
      \<and> validateRequired ext ''string''
             (VSlice TString [VString ''hi'', VString '','', VString ''there'']) []
             [''string'' \<mapsto> VSlice TString [VString ''hi'', VString '','', VString ''there'']]
           = Inr (True, [''string'' \<mapsto> VSlice TString [VString ''hi'', VString '','', VString ''there'']])
      \<and> min_rule ''string'' (VString ''hi'') [''3''] [''string'' \<mapsto> VString ''hi'']
           = Inr (False, tmp) \<longrightarrow>
       validate ext reg (Some req)
            [''string'' \<mapsto> VSlice TString [VString ''hi'', VString '','', VString ''there'']]
            [(''string'', [''>min:3''])] language
         = Inr ([''string'' \<mapsto> VSlice TString [VString ''hi'', VString '','', VString ''there'']],
                [''string'' \<mapsto>
                   [processPlaceholders ext ''string'' ''min'' [''3'']
                      (getMessage ext reg ''min'' (ReflectValue (Some TString) (VString ''hi'')) language True)
                      language]]))"
proof (intro conjI impI)
  assume p: "parseRule reg rule = Inr (ruleName, True, params)"
    and "GetFieldType (data_at data fieldName) \<noteq> ''array''"
  then show "validate_rule ext reg language fieldName rule data errors =
           Inl (Panic (''Cannot validate array values on non-array field '' @ fieldName
                   @ '' of type '' @ GetFieldType (data_at data fieldName)))"
    by (rule per_element_not_array)
next
  assume p: "parseRule reg rule = Inr (ruleName, True, params)"
    and h: "data fieldName = Some (VSlice et (pre @ x # post)) \<and> et \<noteq> TFile
        \<and> validationRules reg ruleName = Some r
        \<and> validateElements (Some r) fieldName params et pre = Inr (None, pre')
        \<and> r fieldName x params [fieldName \<mapsto> x] = Inr (False, tmp)"
  from h have h1: "data fieldName = Some (VSlice et (pre @ x # post))" and h2: "et \<noteq> TFile"
    and h3: "validationRules reg ruleName = Some r"
    and h4: "validateElements (Some r) fieldName params et pre = Inr (None, pre')"
    and h5: "r fieldName x params [fieldName \<mapsto> x] = Inr (False, tmp)"
    by blast+
  show "validate_rule ext reg language fieldName rule data errors =
           Inr (data(fieldName \<mapsto> VSlice et (pre' @ x # post)),
                append_error errors fieldName
                  (processPlaceholders ext fieldName ruleName params
                     (getMessage ext reg ruleName (ReflectValue (Some et) x) language True) language))"
    using p h1 h2 h3 h4 h5 by (rule per_element_first_failure)
next
  assume p: "parseRule reg rule = Inr (ruleName, True, params)"
    and h: "data fieldName = Some (VSlice et xs) \<and> et \<noteq> TFile
        \<and> validateElements (validationRules reg ruleName) fieldName params et xs = Inr (None, xs')"
  from h have h1: "data fieldName = Some (VSlice et xs)" and h2: "et \<noteq> TFile"
    and h3: "validateElements (validationRules reg ruleName) fieldName params et xs = Inr (None, xs')"
    by blast+
  show "validate_rule ext reg language fieldName rule data errors =
           Inr (data(fieldName \<mapsto> VSlice et xs'), errors)"
    using p h1 h2 h3 by (rule per_element_all_pass)
next
  assume h: "validationRules reg ''min'' = Some min_rule
      \<and> validateRequired ext ''string'' (VSlice TString [VString ''hello'', VString ''world'']) []
             [''string'' \<mapsto> VSlice TString [VString ''hello'', VString ''world'']]
           = Inr (True, [''string'' \<mapsto> VSlice TString [VString ''hello'', VString ''world'']])
      \<and> min_rule ''string'' (VString ''hello'') [''3''] [''string'' \<mapsto> VString ''hello'']
           = Inr (True, [''string'' \<mapsto> VString ''hello''])
      \<and> min_rule ''string'' (VString ''world'') [''3''] [''string'' \<mapsto> VString ''world'']
           = Inr (True, [''string'' \<mapsto> VString ''world''])"
  then show "validate ext reg (Some req) [''string'' \<mapsto> VSlice TString [VString ''hello'', VString ''world'']]
            [(''string'', [''>min:3''])] language
         = Inr ([''string'' \<mapsto> VSlice TString [VString ''hello'', VString ''world'']], Map.empty)"
    by (elim conjE) (rule hello_world_passes)
next
  assume h: "validationRules reg ''min'' = Some min_rule
      \<and> validateRequired ext ''string''
             (VSlice TString [VString ''hi'', VString '','', VString ''there'']) []
             [''string'' \<mapsto> VSlice TString [VString ''hi'', VString '','', VString ''there'']]
           = Inr (True, [''string'' \<mapsto> VSlice TString [VString ''hi'', VString '','', VString ''there'']])
      \<and> min_rule ''string'' (VString ''hi'') [''3''] [''string'' \<mapsto> VString ''hi'']
           = Inr (False, tmp)"
  then show "validate ext reg (Some req)
            [''string'' \<mapsto> VSlice TString [VString ''hi'', VString '','', VString ''there'']]
            [(''string'', [''>min:3''])] language
         = Inr ([''string'' \<mapsto> VSlice TString [VString ''hi'', VString '','', VString ''there'']],
                [''string'' \<mapsto>
                   [processPlaceholders ext ''string'' ''min'' [''3'']
                      (getMessage ext reg ''min'' (ReflectValue (Some TString) (VString ''hi'')) language True)
                      language]])"
    by (elim conjE) (rule hi_there_fails_once)
qed


lemma sample_required_present:
  "form field = Some v \<Longrightarrow> v \<noteq> VString [] \<Longrightarrow> sample_required field v params form = Inr (True, form)"
  by (simp add: sample_required_def)

lemma sample_min_3_string:
  "sample_min field (VString s) [''3''] form = Inr (3 \<le> length s, form)"
  by (simp add: sample_min_def)

theorem per_element_rule_witness:
  "validate_rule sample_ext (init sample_ext) ''en-US'' ''string'' ''>min:3''
       [''string'' \<mapsto> VString ''hi''] Map.empty
     = Inl (Panic ''Cannot validate array values on non-array field string of type string'')
   \<and> validate_rule sample_ext (init sample_ext) ''en-US'' ''string'' ''>min:3''
       [''string'' \<mapsto> VSlice TString [VString ''hello'', VString ''hi'', VString ''there'']] Map.empty
     = Inr ([''string'' \<mapsto> VSlice TString [VString ''hello'', VString ''hi'', VString ''there'']],
            [''string'' \<mapsto> [''validation.rules.min.string.array'']])
   \<and> validate sample_ext (init sample_ext) (Some \<lparr>Header = Map.empty\<rparr>)
       [''string'' \<mapsto> VSlice TString [VString ''hello'', VString ''world'']]
       [(''string'', [''>min:3''])] ''en-US''
     = Inr ([''string'' \<mapsto> VSlice TString [VString ''hello'', VString ''world'']], Map.empty)
   \<and> validate sample_ext (init sample_ext) (Some \<lparr>Header = Map.empty\<rparr>)
       [''string'' \<mapsto> VSlice TString [VString ''hi'', VString '','', VString ''there'']]
       [(''string'', [''>min:3''])] ''en-US''
     = Inr ([''string'' \<mapsto> VSlice TString [VString ''hi'', VString '','', VString ''there'']],
            [''string'' \<mapsto> [''validation.rules.min.string.array'']])"
proof -
  note p = parse_each_min_3 [OF sample_init_min]
  have req: "validateRequired sample_ext = sample_required"
    by (simp add: validateRequired_def sample_ext_def)
  have msg: "processPlaceholders sample_ext ''string'' ''min'' [''3'']
        (getMessage sample_ext (init sample_ext) ''min'' (ReflectValue (Some TString) v) ''en-US'' True)
        ''en-US'' = ''validation.rules.min.string.array''" for v
    by (simp add: sample_ext_def getMessage_def getMessage_langEntry_def isTypeDependent_def init_def
        getFieldType_def Kind_def strings_HasPrefix_def Let_def)
  have ft: "GetFieldType (data_at [''string'' \<mapsto> VString ''hi''] ''string'') = ''string''"
    by (simp add: data_at_def GetFieldType_def getFieldType_def reflect_ValueOf_def Kind_def
        strings_HasPrefix_def)
  have pre: "validateElements (Some sample_min) ''string'' [''3''] TString [VString ''hello'']
      = Inr (None, [VString ''hello''])"
    by (simp add: sample_min_3_string data_at_def reflect_Set_def)
  have w1: "validate_rule sample_ext (init sample_ext) ''en-US'' ''string'' ''>min:3''
       [''string'' \<mapsto> VString ''hi''] Map.empty
     = Inl (Panic ''Cannot validate array values on non-array field string of type string'')"
    using per_element_rule [where reg = "init sample_ext" and rule = "''>min:3''"
        and ruleName = "''min''" and params = "[''3'']" and fieldName = "''string''"
        and data = "[''string'' \<mapsto> VString ''hi'']" and ext = sample_ext
        and language = "''en-US''" and errors = Map.empty] p
    by (simp add: ft)
  have w2: "validate_rule sample_ext (init sample_ext) ''en-US'' ''string'' ''>min:3''
       [''string'' \<mapsto> VSlice TString [VString ''hello'', VString ''hi'', VString ''there'']] Map.empty
     = Inr ([''string'' \<mapsto> VSlice TString [VString ''hello'', VString ''hi'', VString ''there'']],
            [''string'' \<mapsto> [''validation.rules.min.string.array'']])"
    using per_element_rule [where reg = "init sample_ext" and rule = "''>min:3''"
        and ruleName = "''min''" and params = "[''3'']" and fieldName = "''string''"
        and data = "[''string'' \<mapsto> VSlice TString [VString ''hello'', VString ''hi'', VString ''there'']]"
        and ext = sample_ext and language = "''en-US''" and errors = Map.empty
        and et = TString and pre = "[VString ''hello'']" and x = "VString ''hi''"
        and post = "[VString ''there'']" and r = sample_min and pre' = "[VString ''hello'']"
        and tmp = "[''string'' \<mapsto> VString ''hi'']"] p pre
    by (simp add: sample_init_min sample_min_3_string msg append_error_def)
  have w3: "validate sample_ext (init sample_ext) (Some \<lparr>Header = Map.empty\<rparr>)
       [''string'' \<mapsto> VSlice TString [VString ''hello'', VString ''world'']]
       [(''string'', [''>min:3''])] ''en-US''
     = Inr ([''string'' \<mapsto> VSlice TString [VString ''hello'', VString ''world'']], Map.empty)"
    using per_element_rule [where reg = "init sample_ext" and ext = sample_ext
        and min_rule = sample_min and language = "''en-US''" and req = "\<lparr>Header = Map.empty\<rparr>"]
    by (simp add: sample_init_min sample_min_3_string req sample_required_present)
  have w4: "validate sample_ext (init sample_ext) (Some \<lparr>Header = Map.empty\<rparr>)
       [''string'' \<mapsto> VSlice TString [VString ''hi'', VString '','', VString ''there'']]
       [(''string'', [''>min:3''])] ''en-US''
     = Inr ([''string'' \<mapsto> VSlice TString [VString ''hi'', VString '','', VString ''there'']],
            [''string'' \<mapsto> [''validation.rules.min.string.array'']])"
    using per_element_rule [where reg = "init sample_ext" and ext = sample_ext
        and min_rule = sample_min and language = "''en-US''" and req = "\<lparr>Header = Map.empty\<rparr>"
        and tmp = "[''string'' \<mapsto> VString ''hi'']"]
    by (simp add: sample_init_min sample_min_3_string req sample_required_present msg)
  from w1 w2 w3 w4 show ?thesis by blast
qed



section \<open>Field existence\<close>

lemma same_but_refl: "same_but f d d"
  by (simp add: same_but_def)

lemma same_but_trans: "same_but f d d1 \<Longrightarrow> same_but f d1 d2 \<Longrightarrow> same_but f d d2"
  by (simp add: same_but_def)

lemma confined_same_but:
  "confined r \<Longrightarrow> r f (data_at d f) ps d = Inr (ok, d') \<Longrightarrow> same_but f d d'"
  unfolding confined_def by blast

lemma validateRuleInArray_same_but:
  assumes "validateRuleInArray reg rn f d ps = Inr (ev, d')"
  shows "same_but f d d'"
proof -
  from assms have arr: "GetFieldType (data_at d f) = ''array''"
    by (auto simp: validateRuleInArray_def Let_def split: if_splits)
  then obtain et xs where sl: "data_at d f = VSlice et xs" and "et \<noteq> TFile"
    by (auto simp: GetFieldType_array_iff)
  then have df: "d f = Some (VSlice et xs)"
    by (auto simp: data_at_def split: option.splits)
  from assms arr sl obtain xs' where "d' = d(f \<mapsto> VSlice et xs')"
    by (auto simp: validateRuleInArray_def Let_def split: sum.splits prod.splits)
  with df show ?thesis by (simp add: same_but_def)
qed

lemma validate_rule_same_but:
  assumes conf: "\<forall>n r. validationRules reg n = Some r \<longrightarrow> confined r"
    and run: "validate_rule ext reg language f rule d e = Inr (d', e')"
  shows "same_but f d d'"
proof -
  from run obtain rn va ps where p: "parseRule reg rule = Inr (rn, va, ps)"
    by (auto simp: validate_rule_def split: sum.splits)
  show ?thesis
  proof (cases va)
    case True
    with run p obtain ev where "validateRuleInArray reg rn f d ps = Inr (ev, d')"
      by (auto simp: validate_rule_def split: sum.splits option.splits prod.splits)
    then show ?thesis by (rule validateRuleInArray_same_but)
  next
    case False
    with run p obtain r ok where r: "validationRules reg rn = Some r"
      and call: "r f (data_at d f) ps d = Inr (ok, d')"
      by (auto simp: validate_rule_def split: sum.splits option.splits prod.splits if_splits)
    from conf r have "confined r" by blast
    then show ?thesis using call by (rule confined_same_but)
  qed
qed

lemma validate_rules_same_but:
  assumes conf: "\<forall>n r. validationRules reg n = Some r \<longrightarrow> confined r"
  shows "validate_rules ext reg language f field d e = Inr (d', e') \<Longrightarrow> same_but f d d'"
proof (induction field arbitrary: d e)
  case Nil
  then show ?case by (simp add: same_but_refl)
next
  case (Cons rule rest)
  show ?case
  proof (cases "rule = ''nullable''")
    case True
    with Cons.prems show ?thesis
      by (auto simp: same_but_refl split: if_splits intro: Cons.IH)
  next
    case False
    with Cons.prems obtain d1 e1 where
      step: "validate_rule ext reg language f rule d e = Inr (d1, e1)"
      and rest: "validate_rules ext reg language f rest d1 e1 = Inr (d', e')"
      by (auto split: sum.splits)
    from validate_rule_same_but [OF conf step] Cons.IH [OF rest]
    show ?thesis by (rule same_but_trans)
  qed
qed

lemma convertArray_same_but:
  assumes "convertArray isJSON f field d = Inr d'"
  shows "same_but f d d'"
proof (cases "d' = d")
  case True
  then show ?thesis by (simp add: same_but_refl)
next
  case False
  with assms obtain rt where "reflect_TypeOf (data_at d f) = Some rt"
    and d': "d' = d(f \<mapsto> VSlice rt [data_at d f])"
    by (auto simp: convertArray_def Let_def split: if_splits option.splits)
  then have "d f \<noteq> None"
    by (auto simp: data_at_def split: option.splits)
  with d' show ?thesis by (auto simp: same_but_def)
qed

lemma validate_field_effect:
  assumes conf: "\<forall>n r. validationRules reg n = Some r \<longrightarrow> confined r"
    and req: "confined (validateRequired ext)"
    and run: "validate_field ext reg isJSON language f field d e = Inr (d', e')"
  shows "(\<forall>k. k \<noteq> f \<longrightarrow> d' k = d k)
       \<and> (if \<not> isNullable field \<and> data_at d f = VNil then d' f = None
          else (d' f = None \<longleftrightarrow> d f = None))"
proof -
  define d1 where "d1 = (if \<not> isNullable field \<and> data_at d f = VNil then d(f := None) else d)"
  have d1: "(\<forall>k. k \<noteq> f \<longrightarrow> d1 k = d k)
       \<and> (if \<not> isNullable field \<and> data_at d f = VNil then d1 f = None
          else (d1 f = None \<longleftrightarrow> d f = None))"
    by (simp add: d1_def)
  have "same_but f d1 d'"
  proof (cases "isRequired field")
    case True
    with run obtain d3 where c: "convertArray isJSON f field d1 = Inr d3"
      and r: "validate_rules ext reg language f field d3 e = Inr (d', e')"
      by (auto simp: validate_field_def d1_def Let_def split: sum.splits)
    from convertArray_same_but [OF c] validate_rules_same_but [OF conf r]
    show ?thesis by (rule same_but_trans)
  next
    case False
    with run obtain present d2 where
      q: "validateRequired ext f (data_at d1 f) [] d1 = Inr (present, d2)"
      by (auto simp: validate_field_def d1_def Let_def split: sum.splits)
    have s12: "same_but f d1 d2" using req q by (rule confined_same_but)
    show ?thesis
    proof (cases present)
      case True
      with run False q obtain d3 where c: "convertArray isJSON f field d2 = Inr d3"
        and r: "validate_rules ext reg language f field d3 e = Inr (d', e')"
        by (auto simp: validate_field_def d1_def Let_def split: sum.splits)
      from convertArray_same_but [OF c] validate_rules_same_but [OF conf r]
      have "same_but f d2 d'" by (rule same_but_trans)
      with s12 show ?thesis by (rule same_but_trans)
    next
      case present: False
      with run False q have "d' = d2"
        by (auto simp: validate_field_def d1_def Let_def split: sum.splits)
      with s12 show ?thesis by simp
    qed
  qed
  with d1 show ?thesis by (auto simp: same_but_def split: if_splits)
qed

lemma validate_fields_other:
  assumes conf: "\<forall>n r. validationRules reg n = Some r \<longrightarrow> confined r"
    and req: "confined (validateRequired ext)"
  shows "validate_fields ext reg isJSON language rules d e = Inr (d', e') \<Longrightarrow>
         k \<notin> fst ` set rules \<Longrightarrow> d' k = d k"
proof (induction rules arbitrary: d e)
  case Nil
  then show ?case by simp
next
  case (Cons entry rest)
  obtain f field where entry: "entry = (f, field)" by (cases entry)
  with Cons.prems obtain d1 e1 where
    step: "validate_field ext reg isJSON language f field d e = Inr (d1, e1)"
    and rest: "validate_fields ext reg isJSON language rest d1 e1 = Inr (d', e')"
    by (auto split: sum.splits)
  from Cons.prems entry have "k \<noteq> f" and "k \<notin> fst ` set rest" by auto
  with validate_field_effect [OF conf req step] Cons.IH [OF rest] show ?case by simp
qed

lemma validate_fields_nil_field:
  assumes conf: "\<forall>n r. validationRules reg n = Some r \<longrightarrow> confined r"
    and req: "confined (validateRequired ext)"
  shows "validate_fields ext reg isJSON language rules d e = Inr (d', e') \<Longrightarrow>
         distinct (map fst rules) \<Longrightarrow> (f, field) \<in> set rules \<Longrightarrow> data_at d f = VNil \<Longrightarrow>
         (if isNullable field then (d' f = None \<longleftrightarrow> d f = None) else d' f = None)"
proof (induction rules arbitrary: d e)
  case Nil
  then show ?case by simp
next
  case (Cons entry rest)
  obtain g fg where entry: "entry = (g, fg)" by (cases entry)
  with Cons.prems(1) obtain d1 e1 where
    step: "validate_field ext reg isJSON language g fg d e = Inr (d1, e1)"
    and rest: "validate_fields ext reg isJSON language rest d1 e1 = Inr (d', e')"
    by (auto split: sum.splits)
  note eff = validate_field_effect [OF conf req step]
  show ?case
  proof (cases "g = f")
    case True
    with Cons.prems(2,3) entry have same: "fg = field" and notin: "f \<notin> fst ` set rest"
      by (auto simp: rev_image_eqI)
    have "d' f = d1 f" using validate_fields_other [OF conf req rest notin] .
    with eff True same Cons.prems(4) show ?thesis by (auto split: if_splits)
  next
    case False
    with Cons.prems(2,3) entry have mem: "(f, field) \<in> set rest" and dist: "distinct (map fst rest)"
      by auto
    from eff False have keep: "d1 f = d f" by simp
    then have "data_at d1 f = VNil" using Cons.prems(4) by (simp add: data_at_def)
    from Cons.IH [OF rest dist mem this] keep show ?thesis by simp
  qed
qed

lemma numeric_only_flags:
  "\<not> isNullable [''numeric'']" "\<not> isRequired [''numeric'']" "\<not> isArray [''numeric'']"
  by (simp_all add: isNullable_def isRequired_def isArray_def)

lemma nil_field_example:
  assumes "validateRequired ext ''nullField'' VNil [] Map.empty = Inr (False, Map.empty)"
  shows "validate ext reg (Some req) [''nullField'' \<mapsto> VNil] [(''nullField'', [''numeric''])] language
          = Inr (Map.empty, Map.empty)"
  using numeric_only_flags assms
  by (simp add: validate_single_field validate_field_def data_at_def)

lemma validate_nil_field:
  assumes conf: "\<forall>n r. validationRules reg n = Some r \<longrightarrow> confined r"
    and req: "confined (validateRequired ext)"
    and dist: "distinct (map fst rules)"
    and mem: "(fieldName, field) \<in> set rules"
    and nil: "data_at data fieldName = VNil"
    and run: "validate ext reg request data rules language = Inr (data', errors)"
  shows "if isNullable field then (fieldName \<in> dom data' \<longleftrightarrow> fieldName \<in> dom data)
         else fieldName \<notin> dom data'"
proof -
  from run obtain isJSON where
    "validate_fields ext reg isJSON language rules data Map.empty = Inr (data', errors)"
    by (auto simp: validate_def Let_def split: option.splits)
  from validate_fields_nil_field [OF conf req this dist mem nil]
  show ?thesis by (auto simp: domIff split: if_splits)
qed

text \<open>
  C3. Let every registered rule and \<^verbatim>\<open>validateRequired\<close> be confined (each may convert
  the value of the field it is called on), the rule set have one entry per field, and
  validation return. For a field of the rule set whose value
  is nil: when its rules do not hold "nullable" the key is absent from the data map
  after validation; when they hold "nullable" the key is in the map after validation
  exactly when it was before. With \<^verbatim>\<open>validateRequired\<close> failing on the absent key, the
  data \<^verbatim>\<open>{"nullField": nil}\<close> and the rules ["numeric"] leave the data map without the
  key and the errors empty.
\<close>

theorem nil_field_removed:
  "((\<forall>n r. validationRules reg n = Some r \<longrightarrow> confined r) \<and> confined (validateRequired ext)
      \<and> distinct (map fst rules) \<and> (fieldName, field) \<in> set rules
      \<and> data_at data fieldName = VNil
      \<and> validate ext reg request data rules language = Inr (data', errors)
     \<longrightarrow> (if isNullable field then (fieldName \<in> dom data' \<longleftrightarrow> fieldName \<in> dom data)
          else fieldName \<notin> dom data'))
   \<and> (validateRequired ext ''nullField'' VNil [] Map.empty = Inr (False, Map.empty)
     \<longrightarrow> validate ext reg' (Some req) [''nullField'' \<mapsto> VNil] [(''nullField'', [''numeric''])] language
          = Inr (Map.empty, Map.empty))"
proof (intro conjI impI)
  assume h: "(\<forall>n r. validationRules reg n = Some r \<longrightarrow> confined r) \<and> confined (validateRequired ext)
      \<and> distinct (map fst rules) \<and> (fieldName, field) \<in> set rules
      \<and> data_at data fieldName = VNil
      \<and> validate ext reg request data rules language = Inr (data', errors)"
  then show "if isNullable field then (fieldName \<in> dom data' \<longleftrightarrow> fieldName \<in> dom data)
          else fieldName \<notin> dom data'"
    by (elim conjE) (rule validate_nil_field)
next
  assume "validateRequired ext ''nullField'' VNil [] Map.empty = Inr (False, Map.empty)"
  then show "validate ext reg' (Some req) [''nullField'' \<mapsto> VNil] [(''nullField'', [''numeric''])] language
          = Inr (Map.empty, Map.empty)"
    by (rule nil_field_example)
qed

lemma always_confined: "confined (always b)"
  by (simp add: confined_def always_def same_but_def)

lemma sample_required_confined: "confined sample_required"
  by (simp add: confined_def sample_required_def same_but_def)

lemma sample_numeric_confined: "confined sample_numeric"
  by (simp add: confined_def sample_numeric_def same_but_def)

lemma sample_min_confined: "confined sample_min"
  by (auto simp: confined_def sample_min_def same_but_def
      split: list.splits option.splits val.splits if_splits)

text \<open>A rule that converts the value of its field is confined.\<close>

lemma sample_integer_confined: "confined sample_integer"
  by (auto simp: confined_def sample_integer_def same_but_def data_at_def
      split: option.splits val.splits if_splits)

lemma sample_init_confined:
  "\<forall>n r. validationRules (init sample_ext) n = Some r \<longrightarrow> confined r"
  by (auto simp: init_registered sample_ext_def always_confined sample_required_confined
      sample_numeric_confined sample_min_confined sample_integer_confined split: if_splits)

lemma coerce_then_remove:
  "validate sample_ext (init sample_ext) (Some \<lparr>Header = Map.empty\<rparr>)
       [''n'' \<mapsto> VString ''42'', ''nullField'' \<mapsto> VNil]
       [(''n'', [''integer'']), (''nullField'', [''numeric''])] ''en-US''
     = Inr ([''n'' \<mapsto> VInt 42], Map.empty)"
proof -
  let ?d = "[''n'' \<mapsto> VString ''42'', ''nullField'' \<mapsto> VNil]"
  let ?d1 = "[''nullField'' \<mapsto> VNil, ''n'' \<mapsto> VInt 42]"
  have req: "validateRequired sample_ext = sample_required"
    by (simp add: validateRequired_def sample_ext_def)
  have reg_int: "validationRules (init sample_ext) ''integer'' = Some sample_integer"
    by (simp add: init_registered init_rule_names_def sample_ext_def)
  have p: "parseRule (init sample_ext) ''integer'' = Inr (''integer'', False, [])"
    using reg_int by (simp add: parseRule_def strings_Count_def Let_def)
  have flags: "\<not> isNullable [''integer'']" "\<not> isRequired [''integer'']" "\<not> isArray [''integer'']"
    by (simp_all add: isNullable_def isRequired_def isArray_def)
  have conv: "convertArray j ''n'' [''integer''] d = Inr d" for j d
    using flags by (simp add: convertArray_def Let_def)
  have run: "sample_integer ''n'' (VString ''42'') [] ?d = Inr (True, ?d1)"
    by (simp add: sample_integer_def)
  have step: "validate_rule sample_ext (init sample_ext) ''en-US'' ''n'' ''integer'' ?d Map.empty
      = Inr (?d1, Map.empty)"
    by (simp add: validate_rule_def p reg_int data_at_def run)
  have f1: "validate_field sample_ext (init sample_ext) j ''en-US'' ''n'' [''integer''] ?d Map.empty
      = Inr (?d1, Map.empty)" for j
    using flags by (simp add: validate_field_def req sample_required_def data_at_def conv step)
  have f2: "validate_field sample_ext (init sample_ext) j ''en-US'' ''nullField'' [''numeric''] ?d1 Map.empty
      = Inr ([''n'' \<mapsto> VInt 42], Map.empty)" for j
    using numeric_only_flags by (simp add: validate_field_def req sample_required_def data_at_def)
  show ?thesis
    by (simp add: validate_def f1 f2 Let_def)
qed

theorem nil_field_removed_witness:
  "validate sample_ext (init sample_ext) (Some \<lparr>Header = Map.empty\<rparr>) [''nullField'' \<mapsto> VNil]
       [(''nullField'', [''numeric''])] ''en-US'' = Inr (Map.empty, Map.empty)
   \<and> ''nullField'' \<notin> dom (Map.empty :: data)
   \<and> validate sample_ext (init sample_ext) (Some \<lparr>Header = Map.empty\<rparr>) [''nullField'' \<mapsto> VNil]
       [(''nullField'', [''required'', ''nullable'', ''numeric''])] ''en-US''
       = Inr ([''nullField'' \<mapsto> VNil], Map.empty)
   \<and> ''nullField'' \<in> dom [''nullField'' \<mapsto> VNil]
   \<and> validate sample_ext (init sample_ext) (Some \<lparr>Header = Map.empty\<rparr>)
       [''n'' \<mapsto> VString ''42'', ''nullField'' \<mapsto> VNil]
       [(''n'', [''integer'']), (''nullField'', [''numeric''])] ''en-US''
       = Inr ([''n'' \<mapsto> VInt 42], Map.empty)
   \<and> ''nullField'' \<notin> dom [''n'' \<mapsto> VInt 42]"
proof -
  have req: "validateRequired sample_ext = sample_required"
    by (simp add: validateRequired_def sample_ext_def)
  have absent: "validateRequired sample_ext ''nullField'' VNil [] Map.empty = Inr (False, Map.empty)"
    by (simp add: req sample_required_def)
  have rc: "confined (validateRequired sample_ext)"
    by (simp add: req sample_required_confined)
  have nil: "data_at [''nullField'' \<mapsto> VNil] ''nullField'' = VNil"
    by (simp add: data_at_def)
  have nil2: "data_at [''n'' \<mapsto> VString ''42'', ''nullField'' \<mapsto> VNil] ''nullField'' = VNil"
    by (simp add: data_at_def)
  note T = nil_field_removed [where ext = sample_ext and reg = "init sample_ext"
      and reg' = "init sample_ext" and req = "\<lparr>Header = Map.empty\<rparr>" and language = "''en-US''"
      and request = "Some \<lparr>Header = Map.empty\<rparr>" and fieldName = "''nullField''"
      and errors = Map.empty]
  have r1: "validate sample_ext (init sample_ext) (Some \<lparr>Header = Map.empty\<rparr>) [''nullField'' \<mapsto> VNil]
       [(''nullField'', [''numeric''])] ''en-US'' = Inr (Map.empty, Map.empty)"
    using T absent by blast
  have w1: "''nullField'' \<notin> dom (Map.empty :: data)"
    using T [where rules = "[(''nullField'', [''numeric''])]" and field = "[''numeric'']"
        and data = "[''nullField'' \<mapsto> VNil]" and data' = Map.empty]
      sample_init_confined rc nil r1 numeric_only_flags(1)
    by simp
  have r2: "validate sample_ext (init sample_ext) (Some \<lparr>Header = Map.empty\<rparr>) [''nullField'' \<mapsto> VNil]
       [(''nullField'', [''required'', ''nullable'', ''numeric''])] ''en-US''
       = Inr ([''nullField'' \<mapsto> VNil], Map.empty)"
    using sample_init_required sample_required_nil by (rule nullable_stops_on_nil)
  have w2: "''nullField'' \<in> dom [''nullField'' \<mapsto> VNil]"
    using T [where rules = "[(''nullField'', [''required'', ''nullable'', ''numeric''])]"
        and field = "[''required'', ''nullable'', ''numeric'']"
        and data = "[''nullField'' \<mapsto> VNil]" and data' = "[''nullField'' \<mapsto> VNil]"]
      sample_init_confined rc nil r2 required_nullable_numeric_flags(1)
    by simp
  note r3 = coerce_then_remove
  have w3: "''nullField'' \<notin> dom [''n'' \<mapsto> VInt 42]"
    using T [where rules = "[(''n'', [''integer'']), (''nullField'', [''numeric''])]"
        and field = "[''numeric'']"
        and data = "[''n'' \<mapsto> VString ''42'', ''nullField'' \<mapsto> VNil]"
        and data' = "[''n'' \<mapsto> VInt 42]"]
      sample_init_confined rc nil2 r3 numeric_only_flags(1)
    by simp
  from r1 w1 r2 w2 r3 w3 show ?thesis by blast
qed


section \<open>Message keys of slice elements\<close>

text \<open>
  C5, at an element of a \<^verbatim>\<open>[]interface{}\<close>. The Value that \<^verbatim>\<open>validateRuleInArray\<close> returns
  for a failing element is the slot \<^verbatim>\<open>list.Index(i)\<close>; in a \<^verbatim>\<open>[]interface{}\<close> its kind is
  "interface", which has the prefix "int", so \<^verbatim>\<open>getFieldType\<close> answers "numeric" whatever
  the element holds, while \<^verbatim>\<open>GetFieldType\<close> of the element itself answers "string". The
  key of the string element "hi" under the type-dependent rule "min" is
  "validation.rules.min.numeric.array", the same as the key of the numeric element 1;
  validating \<^verbatim>\<open>{"list": ["hi"]}\<close> under ">min:3" records the message of that key.
\<close>

theorem getMessage_interface_element:
  "GetFieldType (VString ''hi'') = ''string''
   \<and> getFieldType (ReflectValue (Some TInterface) (VString ''hi'')) = ''numeric''
   \<and> getMessage_langEntry (init ext) ''min'' (ReflectValue (Some TInterface) (VString ''hi'')) True
       = ''validation.rules.min.numeric.array''
   \<and> getMessage_langEntry (init ext) ''min'' (ReflectValue (Some TInterface) (VString ''hi'')) True
       = getMessage_langEntry (init ext) ''min'' (ReflectValue (Some TInterface) (VInt 1)) True
   \<and> validate sample_ext (init sample_ext)
         (Some \<lparr>Header = [''Content-Type'' \<mapsto> [''application/json'']]\<rparr>)
         [''list'' \<mapsto> VSlice TInterface [VString ''hi'']] [(''list'', [''>min:3''])] ''en-US''
       = Inr ([''list'' \<mapsto> VSlice TInterface [VString ''hi'']],
              [''list'' \<mapsto> [''validation.rules.min.numeric.array'']])"
proof -
  have a: "GetFieldType (VString ''hi'') = ''string''"
    by (simp add: GetFieldType_def getFieldType_def reflect_ValueOf_def Kind_def strings_HasPrefix_def)
  have b: "getFieldType (ReflectValue (Some TInterface) v) = ''numeric''" for v
    by (simp add: getFieldType_def Kind_def strings_HasPrefix_def)
  have td: "isTypeDependent (init e) ''min''" for e
    by (simp add: isTypeDependent_def init_def)
  have c: "getMessage_langEntry (init e) ''min'' (ReflectValue (Some TInterface) v) True
       = ''validation.rules.min.numeric.array''" for e v
    by (simp add: getMessage_langEntry_def td b Let_def)
  let ?d = "[''list'' \<mapsto> VSlice TInterface [VString ''hi'']]"
  have req: "validateRequired sample_ext = sample_required"
    by (simp add: validateRequired_def sample_ext_def)
  have at: "data_at ?d ''list'' = VSlice TInterface [VString ''hi'']"
    by (simp add: data_at_def)
  have present: "validateRequired sample_ext ''list'' (data_at ?d ''list'') [] ?d = Inr (True, ?d)"
    by (simp add: req sample_required_def)
  have fld: "validate_field sample_ext (init sample_ext) j ''en-US'' ''list'' [''>min:3''] ?d Map.empty
          = validate_rule sample_ext (init sample_ext) ''en-US'' ''list'' ''>min:3'' ?d Map.empty" for j
    by (rule validate_field_each_min_3) (simp_all add: at req sample_required_def)
  have dl: "?d ''list'' = Some (VSlice TInterface ([] @ VString ''hi'' # []))" by simp
  have step: "validate_rule sample_ext (init sample_ext) ''en-US'' ''list'' ''>min:3'' ?d Map.empty
      = Inr (?d, [''list'' \<mapsto> [''validation.rules.min.numeric.array'']])"
    using per_element_first_failure [where data = ?d and fieldName = "''list''" and et = TInterface
        and pre = "[]" and pre' = "[]" and x = "VString ''hi''" and post = "[]" and r = sample_min
        and tmp = "[''list'' \<mapsto> VString ''hi'']" and ext = sample_ext and language = "''en-US''"
        and errors = Map.empty, OF parse_each_min_3 [OF sample_init_min] dl _ sample_init_min]
    by (simp add: sample_min_3_string append_error_def getMessage_def c sample_ext_def)
  have e: "validate sample_ext (init sample_ext)
         (Some \<lparr>Header = [''Content-Type'' \<mapsto> [''application/json'']]\<rparr>)
         ?d [(''list'', [''>min:3''])] ''en-US''
       = Inr (?d, [''list'' \<mapsto> [''validation.rules.min.numeric.array'']])"
    by (simp add: validate_single_field fld step)
  from a b c e show ?thesis by simp
qed


end
